theory Spec2Isabelle
  imports Main "HOL-Library.Sublist" "HOL-Library.AList"
begin

section \<open>Python values and exceptions\<close>

text \<open>
  Exceptions are values. \<open>Abort\<close> and \<open>Exit\<close> are click's exceptions; \<open>Abort\<close> keeps the
  exception that the logging block of the command line replaced by it.
  \<open>Unmodelled\<close> marks format strings that leave the modelled fragment of \<open>str.format\<close>.
\<close>

datatype pyerror =
    KeyError string
  | ValueError string
  | TypeError
  | IndexError
  | AttributeError string
  | AssertionError
  | RemoteError string
  | Abort pyerror
  | Exit int
  | Unmodelled

text \<open>
  The values of a raw search hit (a decoded JSON document): strings, numbers, booleans,
  nulls and lists of these. A float is kept as the text Python prints for it, the only
  thing the code below can observe of it.
\<close>

datatype json =
    JStr string
  | JInt int
  | JFloat string
  | JBool bool
  | JNull
  | JList "json list"

section \<open>The status of a file: \<open>esgpull/db/models.py\<close>\<close>

text \<open>
  The nine states of the enumeration \<open>FileStatus\<close>, and the list its class method
  \<open>retryable\<close> returns.
\<close>

datatype FileStatus =
    FS_new
  | FS_queued
  | FS_starting
  | FS_started
  | FS_pausing
  | FS_paused
  | FS_error
  | FS_cancelled
  | FS_done

definition retryable :: "FileStatus list" where
  "retryable = [FS_new, FS_starting, FS_started, FS_pausing, FS_paused, FS_error, FS_cancelled]"

text \<open>
  A row of the table \<open>file\<close>. The columns \<open>id\<close> and \<open>last_updated\<close> are filled in by the
  database and are left out.
\<close>

record File =
  file_id :: string
  dataset_id :: string
  master_id :: string
  url :: string
  version :: string
  filename :: string
  local_path :: string
  data_node :: string
  checksum :: string
  checksum_type :: string
  size :: int
  status :: FileStatus
  raw :: "string \<rightharpoonup> json"

section \<open>The command \<open>retry\<close>: \<open>esgpull/cli/retry.py\<close>\<close>

text \<open>
  Modelled from the spec: the module \<open>esgpull.models\<close>, from which \<open>retry.py\<close> imports
  \<open>FileStatus\<close> and \<open>sql\<close>, is missing, and so is the handle the command works on (its
  \<open>ui\<close> and its \<open>db\<close> with \<open>scalars\<close> and \<open>add\<close>; the class \<open>Esgpull\<close> of
  \<open>esgpull/__init__.py\<close> has neither and takes no \<open>verbosity\<close>). The enumeration has
  the nine states of the lifecycle; the command names its members \<open>Error\<close>,
  \<open>Cancelled\<close>, \<open>Done\<close> and \<open>Queued\<close>, so each member carries the capitalised name of
  its state, and \<open>retryable()\<close> is the list of seven states above. The handle is the
  persistence layer of the spec, with the select by status and the add of rows.
\<close>

definition FileStatus_members :: "(string \<times> FileStatus) list" where
  "FileStatus_members =
     [(''New'', FS_new), (''Queued'', FS_queued), (''Starting'', FS_starting),
      (''Started'', FS_started), (''Pausing'', FS_pausing), (''Paused'', FS_paused),
      (''Error'', FS_error), (''Cancelled'', FS_cancelled), (''Done'', FS_done)]"

text \<open>\<open>FileStatus.<name>\<close>: attribute access on the class; names are case sensitive.\<close>

definition FileStatus_getattr :: "string \<Rightarrow> pyerror + FileStatus" where
  "FileStatus_getattr name =
     (case map_of FileStatus_members name of
        None \<Rightarrow> Inl (AttributeError name)
      | Some s \<Rightarrow> Inr s)"

text \<open>
  The persistence layer as the command sees it: the rows of the table \<open>file\<close> and the
  log of the statements that reached the database (a select by status, an add of rows,
  given by their positions).
\<close>

datatype db_op = Select "FileStatus list" | Add "nat list"

record Database =
  table_file :: "File list"
  oplog :: "db_op list"

text \<open>\<open>esg.db.scalars(sql.file.with_status(*status))\<close>: the rows whose status is listed.\<close>

definition with_status :: "FileStatus list \<Rightarrow> Database \<Rightarrow> nat list \<times> Database" where
  "with_status sts db =
     (filter (\<lambda>i. status (table_file db ! i) \<in> set sts) [0..<length (table_file db)],
      db\<lparr>oplog := oplog db @ [Select sts]\<rparr>)"

text \<open>\<open>for file in files: file.status = ...\<close> followed by \<open>esg.db.add(*files)\<close>.\<close>

fun set_status :: "FileStatus \<Rightarrow> nat list \<Rightarrow> File list \<Rightarrow> File list" where
  "set_status s [] fs = fs"
| "set_status s (i # is) fs = set_status s is (fs[i := (fs ! i)\<lparr>status := s\<rparr>])"

definition db_add :: "nat list \<Rightarrow> File list \<Rightarrow> Database \<Rightarrow> Database" where
  "db_add is fs db = db\<lparr>table_file := fs, oplog := oplog db @ [Add is]\<rparr>"

text \<open>
  The body of the logging block (lines 28 to 44). The rows are read, counted, set to the
  member \<open>Queued\<close> and added back. The messages printed are not part of the model.
\<close>

definition retry_body :: "FileStatus list \<Rightarrow> Database \<Rightarrow> (pyerror + unit) \<times> Database" where
  "retry_body sts db =
     (case FileStatus_getattr ''Done'' of
        Inl e \<Rightarrow> (Inl e, db)
      | Inr d \<Rightarrow>
          if d \<in> set sts then (Inl AssertionError, db)
          else (case FileStatus_getattr ''Queued'' of
             Inl e \<Rightarrow> (Inl e, db)
           | Inr q \<Rightarrow>
               if q \<in> set sts then (Inl AssertionError, db)
               else (case with_status sts db of
                  (sel, db1) \<Rightarrow>
                    if sel = [] then (Inl (Exit 0), db1)
                    else (case FileStatus_getattr ''Queued'' of
                       Inl e \<Rightarrow> (Inl e, db1)
                     | Inr q' \<Rightarrow>
                         (Inr (), db_add sel (set_status q' sel (table_file db1)) db1)))))"

text \<open>
  \<open>with esg.ui.logging("retry", onraise=Abort)\<close>: an exception of the block leaves it as
  \<open>Abort\<close>; click's \<open>Exit\<close> passes through.
\<close>

definition logging :: "(pyerror + unit) \<times> Database \<Rightarrow> (pyerror + unit) \<times> Database" where
  "logging r =
     (case r of
        (Inl (Exit n), db) \<Rightarrow> (Inl (Exit n), db)
      | (Inl e, db) \<Rightarrow> (Inl (Abort e), db)
      | (Inr u, db) \<Rightarrow> (Inr u, db))"

text \<open>
  The command. \<open>sts\<close> is the status selection of the command line, \<open>all\<close> its flag,
  \<open>db\<close> the database behind the handle that line 26 builds.
\<close>

definition retry :: "FileStatus list \<Rightarrow> bool \<Rightarrow> Database \<Rightarrow> (pyerror + unit) \<times> Database" where
  "retry sts all db =
     (let sts1 = (if all then retryable else sts) in
      case (if sts1 = []
            then (case FileStatus_getattr ''Error'' of
                    Inl e \<Rightarrow> Inl e
                  | Inr a \<Rightarrow> (case FileStatus_getattr ''Cancelled'' of
                                Inl e \<Rightarrow> Inl e
                              | Inr b \<Rightarrow> Inr [a, b]))
            else Inr sts1) of
        Inl e \<Rightarrow> (Inl e, db)
      | Inr sts2 \<Rightarrow> logging (retry_body sts2 db))"

text \<open>The status selection that a call of \<open>retry\<close> works with.\<close>

definition chosen :: "FileStatus list \<Rightarrow> bool \<Rightarrow> FileStatus list" where
  "chosen sts all =
     (if all then retryable else if sts = [] then [FS_error, FS_cancelled] else sts)"

section \<open>Strings and formatting, as Python computes them\<close>

text \<open>
  A Python \<open>str\<close> is the list of its characters; the characters of the model are the
  code points below 256. \<open>encode\<close> gives the bytes of the UTF-8 encoding: a code point
  from 128 on takes two bytes.
\<close>

definition encode_char :: "char \<Rightarrow> string" where
  "encode_char c =
     (if (of_char c :: nat) < 128 then [c]
      else [char_of (192 + (of_char c :: nat) div 64), char_of (128 + (of_char c :: nat) mod 64)])"

definition encode :: "string \<Rightarrow> string" where
  "encode s = concat (map encode_char s)"

text \<open>\<open>d[key]\<close> on a dict.\<close>

definition getitem :: "(string \<rightharpoonup> 'a) \<Rightarrow> string \<Rightarrow> pyerror + 'a" where
  "getitem d key = (case d key of None \<Rightarrow> Inl (KeyError key) | Some v \<Rightarrow> Inr v)"

text \<open>\<open>s.partition(sep)[0]\<close> for a separator of one character.\<close>

definition partition_head :: "char \<Rightarrow> string \<Rightarrow> string" where
  "partition_head sep s = takeWhile (\<lambda>c. c \<noteq> sep) s"

text \<open>\<open>s.rsplit(sep, 1)\<close> for a separator of one character: split at its last occurrence.\<close>

definition rsplit1 :: "char \<Rightarrow> string \<Rightarrow> string list" where
  "rsplit1 sep s =
     (if sep \<in> set s
      then [rev (tl (dropWhile (\<lambda>c. c \<noteq> sep) (rev s))), rev (takeWhile (\<lambda>c. c \<noteq> sep) (rev s))]
      else [s])"

text \<open>\<open>xs[i]\<close> for an index that is not negative.\<close>

definition index :: "'a list \<Rightarrow> nat \<Rightarrow> pyerror + 'a" where
  "index xs i = (if i < length xs then Inr (xs ! i) else Inl IndexError)"

text \<open>\<open>sep.join(parts)\<close>.\<close>

fun join :: "string \<Rightarrow> string list \<Rightarrow> string" where
  "join sep [] = []"
| "join sep [x] = x"
| "join sep (x # y # ys) = x @ sep @ join sep (y # ys)"

text \<open>\<open>s.removeprefix(p)\<close>.\<close>

definition removeprefix :: "string \<Rightarrow> string \<Rightarrow> string" where
  "removeprefix p s = (if prefix p s then drop (length p) s else s)"

text \<open>
  \<open>s.replace(old, new)\<close>: the occurrences of \<open>old\<close> that do not overlap, from the left.
  An empty \<open>old\<close> matches before every character and at the end.
\<close>

function replace :: "string \<Rightarrow> string \<Rightarrow> string \<Rightarrow> string" where
  "replace old new s =
     (if old = [] then new @ concat (map (\<lambda>c. c # new) s)
      else if s = [] then []
      else if prefix old s then new @ replace old new (drop (length old) s)
      else hd s # replace old new (tl s))"
  by pat_completeness auto
termination
  by (relation "measure (\<lambda>(old, new, s). length s)") auto

declare replace.simps [simp del]

text \<open>Decimal digits of a number, as \<open>str\<close> prints an \<open>int\<close>.\<close>

fun str_nat :: "nat \<Rightarrow> string" where
  "str_nat n =
     (if n < 10 then [char_of (48 + n)]
      else str_nat (n div 10) @ [char_of (48 + n mod 10)])"

declare str_nat.simps [simp del]

definition str_int :: "int \<Rightarrow> string" where
  "str_int i = (if i < 0 then CHR ''-'' # str_nat (nat (- i)) else str_nat (nat i))"

text \<open>
  \<open>repr\<close> of a \<open>str\<close>. Double quotes are used when the text has a single quote and no
  double quote. A backslash and the chosen quote are escaped, tab, newline and return
  have their letters, and a character that is not printable is written \<open>\xNN\<close>: the
  control characters, 127 to 160 and the soft hyphen 173.
\<close>

definition hexdigit :: "nat \<Rightarrow> char" where
  "hexdigit n = (if n < 10 then char_of (48 + n) else char_of (87 + n))"

definition printable :: "char \<Rightarrow> bool" where
  "printable c =
     ((32 \<le> (of_char c :: nat) \<and> (of_char c :: nat) < 127)
      \<or> (160 < (of_char c :: nat) \<and> (of_char c :: nat) \<noteq> 173))"

definition repr_char :: "char \<Rightarrow> char \<Rightarrow> string" where
  "repr_char q c =
     (if c = q \<or> c = CHR 0x5C then [CHR 0x5C, c]
      else if c = CHR 0x09 then [CHR 0x5C, CHR ''t'']
      else if c = CHR 0x0A then [CHR 0x5C, CHR ''n'']
      else if c = CHR 0x0D then [CHR 0x5C, CHR ''r'']
      else if \<not> printable c
        then [CHR 0x5C, CHR ''x'', hexdigit (of_char c div 16), hexdigit (of_char c mod 16)]
      else [c])"

definition repr_str :: "string \<Rightarrow> string" where
  "repr_str s =
     (let q = (if CHR 0x27 \<in> set s \<and> CHR 0x22 \<notin> set s then CHR 0x22 else CHR 0x27)
      in q # concat (map (repr_char q) s) @ [q])"

text \<open>\<open>repr\<close> and \<open>str\<close> of a JSON value.\<close>

fun repr_json :: "json \<Rightarrow> string" where
  "repr_json (JStr s) = repr_str s"
| "repr_json (JInt i) = str_int i"
| "repr_json (JFloat r) = r"
| "repr_json (JBool b) = (if b then ''True'' else ''False'')"
| "repr_json JNull = ''None''"
| "repr_json (JList vs) = ''['' @ join '', '' (map repr_json vs) @ '']''"

definition str_json :: "json \<Rightarrow> string" where
  "str_json v = (case v of JStr s \<Rightarrow> s | _ \<Rightarrow> repr_json v)"

text \<open>
  \<open>template.format(**kwargs)\<close>, for the replacement fields \<open>{name}\<close> that name a keyword.
  A field with a conversion, a format specification, an attribute or an index is outside
  the model (\<open>Unmodelled\<close>). An empty or numeric field names a positional argument, and
  there is none.
\<close>

definition field_stop :: "char \<Rightarrow> bool" where
  "field_stop c = (c \<in> set ''{[}:!'')"

definition get_field :: "(string \<rightharpoonup> json) \<Rightarrow> string \<Rightarrow> pyerror + string" where
  "get_field kwargs name =
     (if name = [] then Inl IndexError
      else if CHR ''.'' \<in> set name then Inl Unmodelled
      else if list_all (\<lambda>c. c \<in> set ''0123456789'') name then Inl IndexError
      else (case kwargs name of
              None \<Rightarrow> Inl (KeyError name)
            | Some v \<Rightarrow> Inr (str_json v)))"

definition emit :: "string \<Rightarrow> pyerror + string \<Rightarrow> pyerror + string" where
  "emit out r = (case r of Inl e \<Rightarrow> Inl e | Inr s \<Rightarrow> Inr (out @ s))"

function format :: "(string \<rightharpoonup> json) \<Rightarrow> string \<Rightarrow> pyerror + string" where
  "format kwargs [] = Inr []"
| "format kwargs (c # cs) =
     (if c = CHR ''}'' then
        (case cs of
           [] \<Rightarrow> Inl (ValueError ''Single } encountered in format string'')
         | d # ds \<Rightarrow>
             if d = CHR ''}'' then emit [c] (format kwargs ds)
             else Inl (ValueError ''Single } encountered in format string''))
      else if c = CHR ''{'' then
        (case cs of
           [] \<Rightarrow> Inl (ValueError ''Single { encountered in format string'')
         | d # ds \<Rightarrow>
             if d = CHR ''{'' then emit [c] (format kwargs ds)
             else (case dropWhile (\<lambda>x. \<not> field_stop x) cs of
                [] \<Rightarrow> Inl (ValueError ''expected } before end of string'')
              | t # rest \<Rightarrow>
                  if t = CHR ''{'' then Inl (ValueError ''unexpected { in field name'')
                  else if t \<noteq> CHR ''}'' then Inl Unmodelled
                  else (case get_field kwargs (takeWhile (\<lambda>x. \<not> field_stop x) cs) of
                     Inl e \<Rightarrow> Inl e
                   | Inr v \<Rightarrow> emit v (format kwargs rest))))
      else emit [c] (format kwargs cs))"
  by pat_completeness auto
termination
proof (relation "measure (\<lambda>(kwargs, s). length s)")
  fix kwargs :: "string \<rightharpoonup> json" and c :: char and cs x21 x22 x21a x22a
  assume "dropWhile (\<lambda>x. \<not> field_stop x) cs = x21a # x22a"
  then have "length (x21a # x22a) \<le> length cs"
    by (metis length_dropWhile_le)
  then show "((kwargs, x22a), kwargs, c # cs) \<in> measure (\<lambda>(kwargs, s). length s)"
    by simp
qed auto

section \<open>Resolving a search hit into a file: \<open>esgpull/db/models.py\<close>\<close>

text \<open>
  \<open>find_str\<close> and \<open>find_int\<close> come from \<open>esgpull.utils\<close>, which is not part of the
  sources at hand; both are parameters of the functions that call them.
\<close>

definition flatten :: "json \<Rightarrow> json" where
  "flatten v = (case v of JList [x] \<Rightarrow> x | _ \<Rightarrow> v)"

text \<open>\<open>a + b\<close> where the code expects two strings.\<close>

definition add_str :: "json \<Rightarrow> json \<Rightarrow> pyerror + json" where
  "add_str a b =
     (case a of
        JStr x \<Rightarrow> (case b of JStr y \<Rightarrow> Inr (JStr (x @ y)) | _ \<Rightarrow> Inl TypeError)
      | _ \<Rightarrow> Inl TypeError)"

definition cordex :: "(string \<rightharpoonup> json) \<Rightarrow> pyerror + (string \<rightharpoonup> json)" where
  "cordex flat_raw =
     (case flat_raw ''rcm_name'' of
        None \<Rightarrow> Inr flat_raw
      | Some rcm_name \<Rightarrow>
          (case getitem flat_raw ''institute'' of
             Inl e \<Rightarrow> Inl e
           | Inr institute \<Rightarrow>
               (case add_str institute (JStr ''-'') of
                  Inl e \<Rightarrow> Inl e
                | Inr pre \<Rightarrow>
                    (case add_str pre rcm_name of
                       Inl e \<Rightarrow> Inl e
                     | Inr rcm_model \<Rightarrow> Inr (flat_raw(''rcm_model'' \<mapsto> rcm_model))))))"

definition get_local_path ::
  "(json \<Rightarrow> pyerror + string) \<Rightarrow> (string \<rightharpoonup> json) \<Rightarrow> string \<Rightarrow> pyerror + string" where
  "get_local_path find_str rawdict ver =
     (let flat_raw = (\<lambda>k. map_option flatten (rawdict k)) in
      case getitem flat_raw ''directory_format_template_'' of
        Inl e \<Rightarrow> Inl e
      | Inr t \<Rightarrow>
          (case find_str t of
             Inl e \<Rightarrow> Inl e
           | Inr template \<Rightarrow>
               (let template1 = removeprefix ''%(root)s/'' template;
                    template2 = replace ''%('' ''{'' template1;
                    template3 = replace '')s'' ''}'' template2;
                    flat_raw1 = flat_raw(''version'' := None)
                in case cordex flat_raw1 of
                     Inl e \<Rightarrow> Inl e
                   | Inr flat_raw2 \<Rightarrow>
                       format (flat_raw2(''version'' \<mapsto> JStr ver)) template3)))"

text \<open>\<open>find_str(raw[key])\<close> and \<open>find_int(raw[key])\<close>.\<close>

definition find_in :: "(json \<Rightarrow> pyerror + 'a) \<Rightarrow> (string \<rightharpoonup> json) \<Rightarrow> string \<Rightarrow> pyerror + 'a" where
  "find_in finder rawdict key = (case getitem rawdict key of Inl e \<Rightarrow> Inl e | Inr v \<Rightarrow> finder v)"

definition from_dict ::
  "(json \<Rightarrow> pyerror + string) \<Rightarrow> (json \<Rightarrow> pyerror + int) \<Rightarrow> (string \<rightharpoonup> json) \<Rightarrow> pyerror + File" where
  "from_dict find_str find_int rawdict =
     (case find_in find_str rawdict ''dataset_id'' of Inl e \<Rightarrow> Inl e | Inr ds \<Rightarrow>
      case find_in find_str rawdict ''title'' of Inl e \<Rightarrow> Inl e | Inr filename' \<Rightarrow>
      case find_in find_str rawdict ''url'' of Inl e \<Rightarrow> Inl e | Inr u \<Rightarrow>
      case find_in find_str rawdict ''data_node'' of Inl e \<Rightarrow> Inl e | Inr data_node' \<Rightarrow>
      case find_in find_str rawdict ''checksum'' of Inl e \<Rightarrow> Inl e | Inr checksum' \<Rightarrow>
      case find_in find_str rawdict ''checksum_type'' of Inl e \<Rightarrow> Inl e | Inr checksum_type' \<Rightarrow>
      case find_in find_int rawdict ''size'' of Inl e \<Rightarrow> Inl e | Inr size' \<Rightarrow>
      (let dataset_id' = partition_head CHR ''|'' ds;
           url' = partition_head CHR ''|'' u;
           file_id' = join ''.'' [dataset_id', filename']
       in case index (rsplit1 CHR ''.'' dataset_id') 0 of Inl e \<Rightarrow> Inl e | Inr dataset_master \<Rightarrow>
          (let master_id' = join ''.'' [dataset_master, filename']
           in case index (rsplit1 CHR ''.'' dataset_id') 1 of Inl e \<Rightarrow> Inl e | Inr version' \<Rightarrow>
              case get_local_path find_str rawdict version' of Inl e \<Rightarrow> Inl e | Inr local_path' \<Rightarrow>
                Inr \<lparr>file_id = file_id', dataset_id = dataset_id', master_id = master_id',
                     url = url', version = version', filename = filename',
                     local_path = local_path', data_node = data_node', checksum = checksum',
                     checksum_type = checksum_type', size = size', status = FS_new,
                     raw = rawdict\<rparr>)))"

section \<open>The query model: \<open>esgpull/models/query.py\<close>\<close>

text \<open>
  Queries, tags, options and selections are objects: the code mutates them in place and
  two queries may hold the same tag, so they live in a store and are named by
  references. The list of tags of a query is rebuilt by \<open>__setattr__\<close> whenever it is
  assigned, so no two queries share it and it is kept as a field.
\<close>

type_synonym ref = nat

text \<open>
  Modelled from the spec: the classes \<open>Tag\<close>, \<open>Options\<close>, \<open>Selection\<close> and \<open>Base\<close>
  (\<open>esgpull/models/tag.py\<close>, \<open>options.py\<close>, \<open>selection.py\<close>, \<open>base.py\<close>) are missing.
  A tag is a name. Options are the flags that are set, each \<open>True\<close>, \<open>False\<close> or \<open>None\<close>;
  an unset flag is absent. A selection maps a facet name to its list of values. For
  both, \<open>items()\<close> and \<open>asdict()\<close> give these pairs, the constructor takes them back, and
  the object is true when it has a pair. Each object caches its identity in \<open>sha\<close>,
  which is \<open>None\<close> until \<open>compute_sha\<close> sets it to the digest of the object's bytes.
\<close>

record Tag =
  tag_name :: string
  tag_sha :: "string option"

record Options =
  flags :: "(string \<times> bool option) list"
  options_sha :: "string option"

record Selection =
  facets :: "(string \<times> string list) list"
  selection_sha :: "string option"

text \<open>
  The columns of \<open>Query\<close> that its methods read or write. The relationship \<open>files\<close>
  and the foreign keys \<open>options_sha\<close> and \<open>selection_sha\<close> are left to the database.
\<close>

record Query =
  tags :: "ref list"
  transient :: bool
  require :: "string option"
  options :: ref
  selection :: ref
  sha :: "string option"

record heap =
  tag_objs :: "ref \<rightharpoonup> Tag"
  options_objs :: "ref \<rightharpoonup> Options"
  selection_objs :: "ref \<rightharpoonup> Selection"
  query_objs :: "ref \<rightharpoonup> Query"
  next_ref :: ref

definition tag_at :: "heap \<Rightarrow> ref \<Rightarrow> Tag" where
  "tag_at h r = the (tag_objs h r)"

definition options_at :: "heap \<Rightarrow> ref \<Rightarrow> Options" where
  "options_at h r = the (options_objs h r)"

definition selection_at :: "heap \<Rightarrow> ref \<Rightarrow> Selection" where
  "selection_at h r = the (selection_objs h r)"

definition query_at :: "heap \<Rightarrow> ref \<Rightarrow> Query" where
  "query_at h r = the (query_objs h r)"

text \<open>
  A reference of a Python program always names an object, and an object made later is
  a new one. \<open>wf_query\<close> says so for a query and what it holds: each reference names an
  object and lies below \<open>next_ref\<close>, from where new objects are taken. The properties
  below are stated for such queries.
\<close>

definition wf_query :: "heap \<Rightarrow> ref \<Rightarrow> bool" where
  "wf_query h q =
     (case query_objs h q of
        None \<Rightarrow> False
      | Some qo \<Rightarrow>
          q < next_ref h
          \<and> list_all (\<lambda>t. tag_objs h t \<noteq> None \<and> t < next_ref h) (tags qo)
          \<and> options_objs h (options qo) \<noteq> None \<and> options qo < next_ref h
          \<and> selection_objs h (selection qo) \<noteq> None \<and> selection qo < next_ref h)"

text \<open>
  What the missing classes compute and the model cannot: the digest
  (\<open>sha1(...).hexdigest()\<close> in \<open>Base.compute_sha\<close>), the bytes each class hashes, and
  the equality of tags that \<open>in\<close> uses.
\<close>

record Env =
  digest :: "string \<Rightarrow> string"
  Tag_as_bytes :: "string \<Rightarrow> string"
  Options_as_bytes :: "(string \<times> bool option) list \<Rightarrow> string"
  Selection_as_bytes :: "(string \<times> string list) list \<Rightarrow> string"
  Tag_eq :: "Tag \<Rightarrow> Tag \<Rightarrow> bool"

subsection \<open>Constructors\<close>

definition new_Tag :: "string \<Rightarrow> heap \<Rightarrow> ref \<times> heap" where
  "new_Tag n h =
     (next_ref h,
      h\<lparr>tag_objs := (tag_objs h)(next_ref h \<mapsto> \<lparr>tag_name = n, tag_sha = None\<rparr>),
        next_ref := Suc (next_ref h)\<rparr>)"

fun new_Tags :: "string list \<Rightarrow> heap \<Rightarrow> ref list \<times> heap" where
  "new_Tags [] h = ([], h)"
| "new_Tags (n # ns) h =
     (case new_Tag n h of (r, h1) \<Rightarrow>
        (case new_Tags ns h1 of (rs, h2) \<Rightarrow> (r # rs, h2)))"

definition new_Options :: "(string \<times> bool option) list \<Rightarrow> heap \<Rightarrow> ref \<times> heap" where
  "new_Options fl h =
     (next_ref h,
      h\<lparr>options_objs := (options_objs h)(next_ref h \<mapsto> \<lparr>flags = fl, options_sha = None\<rparr>),
        next_ref := Suc (next_ref h)\<rparr>)"

definition new_Selection :: "(string \<times> string list) list \<Rightarrow> heap \<Rightarrow> ref \<times> heap" where
  "new_Selection fa h =
     (next_ref h,
      h\<lparr>selection_objs := (selection_objs h)(next_ref h \<mapsto> \<lparr>facets = fa, selection_sha = None\<rparr>),
        next_ref := Suc (next_ref h)\<rparr>)"

text \<open>\<open>QueryDict\<close>: every key is optional; \<open>tags\<close> is one name or a list of names.\<close>

datatype tags_arg = OneTag string | ManyTags "string list"

record QueryDict =
  d_tags :: "tags_arg option"
  d_transient :: "bool option"
  d_require :: "string option"
  d_options :: "(string \<times> bool option) list option"
  d_selection :: "(string \<times> string list) list option"

text \<open>
  \<open>Query(**d)\<close>: the generated constructor assigns each field, a missing key takes the
  default of its column, and \<open>__setattr__\<close> turns names into new tags and dicts into new
  \<open>Options\<close> and \<open>Selection\<close> objects.
\<close>

definition Query_init :: "QueryDict \<Rightarrow> heap \<Rightarrow> ref \<times> heap" where
  "Query_init d h =
     (case new_Tags (case d_tags d of
                       None \<Rightarrow> []
                     | Some (OneTag n) \<Rightarrow> [n]
                     | Some (ManyTags ns) \<Rightarrow> ns) h of (ts, h1) \<Rightarrow>
      case new_Options (case d_options d of None \<Rightarrow> [] | Some fl \<Rightarrow> fl) h1 of (ob, h2) \<Rightarrow>
      case new_Selection (case d_selection d of None \<Rightarrow> [] | Some fa \<Rightarrow> fa) h2 of (sl, h3) \<Rightarrow>
        (next_ref h3,
         h3\<lparr>query_objs := (query_objs h3)(next_ref h3 \<mapsto>
               \<lparr>tags = ts,
                transient = (case d_transient d of None \<Rightarrow> False | Some b \<Rightarrow> b),
                require = d_require d,
                options = ob,
                selection = sl,
                sha = None\<rparr>),
            next_ref := Suc (next_ref h3)\<rparr>))"

subsection \<open>Identity\<close>

definition repr_opt :: "string option \<Rightarrow> string" where
  "repr_opt x = (case x of None \<Rightarrow> ''None'' | Some s \<Rightarrow> repr_str s)"

text \<open>\<open>str\<close> of a tuple of three.\<close>

definition str_tuple3 :: "string \<Rightarrow> string \<Rightarrow> string \<Rightarrow> string" where
  "str_tuple3 a b c = ''('' @ join '', '' [a, b, c] @ '')''"

definition Query_as_bytes :: "heap \<Rightarrow> ref \<Rightarrow> string" where
  "Query_as_bytes h q =
     encode (str_tuple3
       (repr_opt (require (query_at h q)))
       (repr_opt (options_sha (options_at h (options (query_at h q)))))
       (repr_opt (selection_sha (selection_at h (selection (query_at h q))))))"

definition Tag_compute_sha :: "Env \<Rightarrow> ref \<Rightarrow> heap \<Rightarrow> heap" where
  "Tag_compute_sha E t h =
     h\<lparr>tag_objs := (tag_objs h)(t \<mapsto>
         (tag_at h t)\<lparr>tag_sha := Some (digest E (Tag_as_bytes E (tag_name (tag_at h t))))\<rparr>)\<rparr>"

definition Options_compute_sha :: "Env \<Rightarrow> ref \<Rightarrow> heap \<Rightarrow> heap" where
  "Options_compute_sha E ob h =
     h\<lparr>options_objs := (options_objs h)(ob \<mapsto>
         (options_at h ob)\<lparr>options_sha :=
            Some (digest E (Options_as_bytes E (flags (options_at h ob))))\<rparr>)\<rparr>"

definition Selection_compute_sha :: "Env \<Rightarrow> ref \<Rightarrow> heap \<Rightarrow> heap" where
  "Selection_compute_sha E sl h =
     h\<lparr>selection_objs := (selection_objs h)(sl \<mapsto>
         (selection_at h sl)\<lparr>selection_sha :=
            Some (digest E (Selection_as_bytes E (facets (selection_at h sl))))\<rparr>)\<rparr>"

definition compute_sha :: "Env \<Rightarrow> ref \<Rightarrow> heap \<Rightarrow> heap" where
  "compute_sha E q h =
     (let h1 = fold (Tag_compute_sha E) (tags (query_at h q)) h;
          h2 = Options_compute_sha E (options (query_at h1 q)) h1;
          h3 = Selection_compute_sha E (selection (query_at h2 q)) h2
      in h3\<lparr>query_objs := (query_objs h3)(q \<mapsto>
            (query_at h3 q)\<lparr>sha := Some (digest E (Query_as_bytes h3 q))\<rparr>)\<rparr>)"

subsection \<open>\<open>asdict\<close>, \<open>clone\<close> and the operator \<open><<\<close>\<close>

definition asdict :: "heap \<Rightarrow> ref \<Rightarrow> QueryDict" where
  "asdict h q =
     (let qo = query_at h q in
      \<lparr>d_tags =
         (if length (tags qo) > 1 then Some (ManyTags (map (\<lambda>t. tag_name (tag_at h t)) (tags qo)))
          else if length (tags qo) = 1 then Some (OneTag (tag_name (tag_at h (tags qo ! 0))))
          else None),
       d_transient = (if transient qo then Some (transient qo) else None),
       d_require = (case require qo of None \<Rightarrow> None | Some r \<Rightarrow> Some r),
       d_options =
         (if flags (options_at h (options qo)) \<noteq> []
          then Some (flags (options_at h (options qo))) else None),
       d_selection =
         (if facets (selection_at h (selection qo)) \<noteq> []
          then Some (facets (selection_at h (selection qo))) else None)\<rparr>)"

definition clone :: "Env \<Rightarrow> bool \<Rightarrow> ref \<Rightarrow> heap \<Rightarrow> ref \<times> heap" where
  "clone E with_sha q h =
     (case Query_init (asdict h q) h of
        (instance, h1) \<Rightarrow> (instance, if with_sha then compute_sha E instance h1 else h1))"

text \<open>\<open>tag in tags\<close>: some element is the same object or an equal one.\<close>

definition Tag_in :: "Env \<Rightarrow> heap \<Rightarrow> ref \<Rightarrow> ref list \<Rightarrow> bool" where
  "Tag_in E h t ts = list_ex (\<lambda>x. x = t \<or> Tag_eq E (tag_at h x) (tag_at h t)) ts"

definition tags_append :: "ref \<Rightarrow> ref \<Rightarrow> heap \<Rightarrow> heap" where
  "tags_append q t h =
     h\<lparr>query_objs := (query_objs h)(q \<mapsto> (query_at h q)\<lparr>tags := tags (query_at h q) @ [t]\<rparr>)\<rparr>"

text \<open>\<open>setattr(options, name, option)\<close>: the named flag takes the value.\<close>

definition Options_setattr :: "ref \<Rightarrow> string \<Rightarrow> bool option \<Rightarrow> heap \<Rightarrow> heap" where
  "Options_setattr ob n v h =
     h\<lparr>options_objs := (options_objs h)(ob \<mapsto>
         (options_at h ob)\<lparr>flags := AList.update n v (flags (options_at h ob))\<rparr>)\<rparr>"

text \<open>\<open>selection[name] = values\<close>: the facet takes the list of values.\<close>

definition Selection_setitem :: "ref \<Rightarrow> string \<Rightarrow> string list \<Rightarrow> heap \<Rightarrow> heap" where
  "Selection_setitem sl n vs h =
     h\<lparr>selection_objs := (selection_objs h)(sl \<mapsto>
         (selection_at h sl)\<lparr>facets := AList.update n vs (facets (selection_at h sl))\<rparr>)\<rparr>"

definition set_transient :: "ref \<Rightarrow> bool \<Rightarrow> heap \<Rightarrow> heap" where
  "set_transient q b h =
     h\<lparr>query_objs := (query_objs h)(q \<mapsto> (query_at h q)\<lparr>transient := b\<rparr>)\<rparr>"

text \<open>
  \<open>self << other\<close>. The three loops run over the tags, the set flags and the facets of
  \<open>other\<close>; the first and the third write to \<open>result\<close>, the second to \<open>self.options\<close>.
\<close>

definition lshift :: "Env \<Rightarrow> ref \<Rightarrow> ref \<Rightarrow> heap \<Rightarrow> ref \<times> heap" where
  "lshift E self other h =
     (case clone E False self h of (result, h1) \<Rightarrow>
        (let h2 = fold (\<lambda>t hh. if \<not> Tag_in E hh t (tags (query_at hh self))
                                then tags_append result t hh else hh)
                       (tags (query_at h1 other)) h1;
             h3 = fold (\<lambda>(n, v) hh. Options_setattr (options (query_at hh self)) n v hh)
                       (flags (options_at h2 (options (query_at h2 other)))) h2;
             h4 = fold (\<lambda>(n, vs) hh. Selection_setitem (selection (query_at hh result)) n vs hh)
                       (facets (selection_at h3 (selection (query_at h3 other)))) h3;
             h5 = set_transient result (transient (query_at h4 other)) h4;
             h6 = compute_sha E result h5
         in (result, h6)))"

subsection \<open>Notions used to state the properties\<close>

text \<open>The names that \<open>asdict\<close> hands to the constructor for the tags of a clone.\<close>

definition names_of :: "heap \<Rightarrow> ref \<Rightarrow> string list" where
  "names_of h q = (case d_tags (asdict h q) of
                       None \<Rightarrow> []
                     | Some (OneTag n) \<Rightarrow> [n]
                     | Some (ManyTags ns) \<Rightarrow> ns)"

text \<open>
  \<open>query_frame r h h'\<close>: from \<open>h\<close> to \<open>h'\<close> no query other than \<open>r\<close> has changed, and \<open>r\<close>
  has kept what it requires and the options and selection objects it holds.
\<close>

definition query_frame :: "ref \<Rightarrow> heap \<Rightarrow> heap \<Rightarrow> bool" where
  "query_frame r h h' =
     ((\<forall>x. x \<noteq> r \<longrightarrow> query_objs h' x = query_objs h x)
      \<and> require (query_at h' r) = require (query_at h r)
      \<and> options (query_at h' r) = options (query_at h r)
      \<and> selection (query_at h' r) = selection (query_at h r))"

text \<open>
  The identity the spec gives a query: the digest of the triple of what it requires,
  the identity of its options and the identity of its selection.
\<close>

definition triple_hash :: "Env \<Rightarrow> string option \<Rightarrow> string option \<Rightarrow> string option \<Rightarrow> string" where
  "triple_hash E req osha ssha =
     digest E (encode (str_tuple3 (repr_opt req) (repr_opt osha) (repr_opt ssha)))"

section \<open>Notions used to state the properties of the resolver\<close>

text \<open>The placeholder \<open>%(name)s\<close> of a directory template.\<close>

definition placeholder :: "string \<Rightarrow> string" where
  "placeholder n = ''%('' @ n @ '')s''"

text \<open>
  A name that a placeholder can carry and \<open>format\<close> reads as a keyword: it is not empty,
  not a number, and has none of the characters of the two placeholder syntaxes.
\<close>

definition plain_name :: "string \<Rightarrow> bool" where
  "plain_name n =
     (n \<noteq> [] \<and> list_all (\<lambda>c. c \<notin> set ''%(){}[]:!.'') n
      \<and> \<not> list_all (\<lambda>c. c \<in> set ''0123456789'') n)"

text \<open>A replica qualifier: nothing, or a bar followed by anything.\<close>

definition qualifier :: "string \<Rightarrow> bool" where
  "qualifier q = (case q of [] \<Rightarrow> True | c # cs \<Rightarrow> c = CHR ''|'')"

section \<open>Refreshing the facet vocabulary: \<open>esgpull/__init__.py\<close>\<close>

text \<open>A row of the table \<open>param\<close>, without the columns the database fills in.\<close>

record Param =
  param_name :: string
  param_value :: string

text \<open>
  The facet counts of one answer of the search service: for each facet name, the count
  of each of its values.
\<close>

type_synonym facet_counts = "(string \<times> (string \<times> int) list) list"

text \<open>
  The class \<open>Context\<close> is missing from the sources; what its property \<open>facet_counts\<close>
  returns is a parameter: \<open>distrib_facet_counts\<close> for the request over the whole
  federation that asks for the facet \<open>index_node\<close>, \<open>node_facet_counts\<close> for the
  requests sent to the index nodes given. A request that fails raises.
\<close>

record Remote =
  distrib_facet_counts :: "pyerror + facet_counts list"
  node_facet_counts :: "string list \<Rightarrow> pyerror + facet_counts list"

text \<open>
  Modelled from the spec: the class \<open>Database\<close> is missing. The persistence layer offers
  typed operations that take effect when they are called: \<open>select\<close> returns the rows of
  the table, \<open>delete\<close> removes the rows given, \<open>add\<close> inserts the rows given.
\<close>

definition db_select_params :: "Param list \<Rightarrow> Param list" where
  "db_select_params table = table"

definition db_delete_params :: "Param list \<Rightarrow> Param list \<Rightarrow> Param list" where
  "db_delete_params rows table = filter (\<lambda>p. p \<notin> set rows) table"

definition db_add_params :: "Param list \<Rightarrow> Param list \<Rightarrow> Param list" where
  "db_add_params rows table = table @ rows"

definition SKIP_FACETS :: "string list" where
  "SKIP_FACETS = [''cf_standard_name'', ''variable_long_name'', ''creation_date'', ''datetime_end'']"

text \<open>\<open>list(ctx.facet_counts[0]["index_node"])\<close>: the keys of the first answer's entry.\<close>

definition index_nodes_of :: "facet_counts list \<Rightarrow> pyerror + string list" where
  "index_nodes_of fcs =
     (case index fcs 0 of
        Inl e \<Rightarrow> Inl e
      | Inr fc \<Rightarrow>
          (case getitem (map_of fc) ''index_node'' of
             Inl e \<Rightarrow> Inl e
           | Inr counts \<Rightarrow> Inr (map fst counts)))"

text \<open>
  The loops that collect the values seen. A Python set is kept as a list without
  repetition, in the order of insertion; a dict as an association list.
\<close>

definition collect_values :: "(string \<times> int) list \<Rightarrow> string list" where
  "collect_values counts =
     fold (\<lambda>(v, count) acc. if count \<noteq> 0 \<and> length v \<le> 255 then List.insert v acc else acc)
          counts []"

definition collect_facet ::
  "string \<times> (string \<times> int) list \<Rightarrow> (string \<times> string list) list \<Rightarrow> (string \<times> string list) list" where
  "collect_facet nv acc =
     (case nv of (n, counts) \<Rightarrow>
        if n \<in> set SKIP_FACETS \<or> length counts = 0 then acc
        else (let facet_values = collect_values counts in
              if facet_values \<noteq> []
              then AList.update n
                     (List.union (case map_of acc n of None \<Rightarrow> [] | Some vs \<Rightarrow> vs) facet_values) acc
              else acc))"

definition collect_all :: "facet_counts list \<Rightarrow> (string \<times> string list) list" where
  "collect_all index_facets = fold (\<lambda>fc acc. fold collect_facet fc acc) index_facets []"

definition make_params :: "(string \<times> string list) list \<Rightarrow> Param list" where
  "make_params fcs =
     concat (map (\<lambda>(n, vs). map (\<lambda>v. \<lparr>param_name = n, param_value = v\<rparr>) vs) fcs)"

text \<open>
  \<open>Esgpull.fetch_params\<close>. The result pairs what the call returns or raises with the
  table \<open>param\<close> it leaves behind.
\<close>

definition fetch_params :: "Remote \<Rightarrow> bool \<Rightarrow> Param list \<Rightarrow> (pyerror + bool) \<times> Param list" where
  "fetch_params R update table =
     (let params = db_select_params table in
      if params \<noteq> [] \<and> \<not> update then (Inr False, table)
      else (let table1 = db_delete_params params table in
            case distrib_facet_counts R of
              Inl e \<Rightarrow> (Inl e, table1)
            | Inr fcs \<Rightarrow>
                (case index_nodes_of fcs of
                   Inl e \<Rightarrow> (Inl e, table1)
                 | Inr index_nodes \<Rightarrow>
                     (case node_facet_counts R index_nodes of
                        Inl e \<Rightarrow> (Inl e, table1)
                      | Inr index_facets \<Rightarrow>
                          (Inr True,
                           db_add_params (make_params (collect_all index_facets)) table1)))))"

section \<open>Sample inputs\<close>

text \<open>
  Instances of the parameters and small inputs, on which the functions above are run.
  \<open>sample_find_str\<close> and \<open>sample_find_int\<close> take a value or the first element of a
  list; \<open>sample_env\<close> hashes by marking the text.
\<close>

fun sample_find_str :: "json \<Rightarrow> pyerror + string" where
  "sample_find_str (JStr s) = Inr s"
| "sample_find_str (JList []) = Inl IndexError"
| "sample_find_str (JList (x # xs)) = sample_find_str x"
| "sample_find_str v = Inl (ValueError (repr_json v))"

fun sample_find_int :: "json \<Rightarrow> pyerror + int" where
  "sample_find_int (JInt i) = Inr i"
| "sample_find_int (JList []) = Inl IndexError"
| "sample_find_int (JList (x # xs)) = sample_find_int x"
| "sample_find_int v = Inl (ValueError (repr_json v))"

definition sample_env :: Env where
  "sample_env =
     \<lparr>digest = (\<lambda>s. ''#'' @ s),
      Tag_as_bytes = (\<lambda>n. n),
      Options_as_bytes = (\<lambda>fl. concat (map (\<lambda>(n, v). n @ (case v of None \<Rightarrow> ''?'' | Some b \<Rightarrow> if b then ''+'' else ''-'')) fl)),
      Selection_as_bytes = (\<lambda>fa. concat (map (\<lambda>(n, vs). n @ '':'' @ join '','' vs @ '';'') fa)),
      Tag_eq = (\<lambda>a b. tag_name a = tag_name b)\<rparr>"

text \<open>
  Two queries in a store: the base at 4 with options at 0 and selection at 2, the
  override at 5 with options at 1 and selection at 3. The base extends the query
  \<open>abc\<close> and sets \<open>distrib\<close> to \<open>False\<close>; the override sets \<open>distrib\<close> to \<open>True\<close>.
\<close>

definition sample_heap :: heap where
  "sample_heap =
     \<lparr>tag_objs = Map.empty,
      options_objs = [0 \<mapsto> \<lparr>flags = [(''distrib'', Some False)], options_sha = None\<rparr>,
                      1 \<mapsto> \<lparr>flags = [(''distrib'', Some True)], options_sha = None\<rparr>],
      selection_objs = [2 \<mapsto> \<lparr>facets = [(''project'', [''CMIP6''])], selection_sha = None\<rparr>,
                        3 \<mapsto> \<lparr>facets = [(''variable'', [''tas''])], selection_sha = None\<rparr>],
      query_objs = [4 \<mapsto> \<lparr>tags = [], transient = False, require = Some ''abc'',
                           options = 0, selection = 2, sha = None\<rparr>,
                    5 \<mapsto> \<lparr>tags = [], transient = False, require = None,
                           options = 1, selection = 3, sha = None\<rparr>],
      next_ref = 6\<rparr>"

text \<open>
  Two queries with equal options and selections that extend the same query: the one at
  5 carries the tag at 0, the one at 6 carries none and is transient.
\<close>

definition sample_tagged_heap :: heap where
  "sample_tagged_heap =
     \<lparr>tag_objs = [0 \<mapsto> \<lparr>tag_name = ''mine'', tag_sha = None\<rparr>],
      options_objs = [1 \<mapsto> \<lparr>flags = [(''latest'', Some True)], options_sha = None\<rparr>,
                      2 \<mapsto> \<lparr>flags = [(''latest'', Some True)], options_sha = None\<rparr>],
      selection_objs = [3 \<mapsto> \<lparr>facets = [(''project'', [''CMIP6''])], selection_sha = None\<rparr>,
                        4 \<mapsto> \<lparr>facets = [(''project'', [''CMIP6''])], selection_sha = None\<rparr>],
      query_objs = [5 \<mapsto> \<lparr>tags = [0], transient = False, require = Some ''abc'',
                           options = 1, selection = 3, sha = None\<rparr>,
                    6 \<mapsto> \<lparr>tags = [], transient = True, require = Some ''abc'',
                           options = 2, selection = 4, sha = None\<rparr>],
      next_ref = 7\<rparr>"

text \<open>
  The metadata of a record with a directory template of three placeholders, and a raw
  hit of a file whose dataset carries a replica qualifier.
\<close>

definition sample_meta :: "string \<rightharpoonup> json" where
  "sample_meta =
     [''directory_format_template_'' \<mapsto> JStr ''%(root)s/%(a)s/%(b)s/%(version)s'',
      ''a'' \<mapsto> JStr ''x'',
      ''b'' \<mapsto> JStr ''y'']"

definition sample_hit :: "string \<rightharpoonup> json" where
  "sample_hit =
     [''dataset_id'' \<mapsto> JStr ''CMIP6.tas.v2020|esgf.org'',
      ''title'' \<mapsto> JStr ''tas.nc'',
      ''url'' \<mapsto> JList [JStr ''http://esgf.org/tas.nc|application/netcdf|HTTPServer''],
      ''data_node'' \<mapsto> JStr ''esgf.org'',
      ''checksum'' \<mapsto> JList [JStr ''c0ffee''],
      ''checksum_type'' \<mapsto> JList [JStr ''SHA256''],
      ''size'' \<mapsto> JInt 1024,
      ''directory_format_template_'' \<mapsto> JList [JStr ''%(root)s/%(project)s/%(version)s''],
      ''project'' \<mapsto> JList [JStr ''CMIP6'']]"

text \<open>A CORDEX record that names its regional model and no institute.\<close>

definition sample_cordex :: "string \<rightharpoonup> json" where
  "sample_cordex =
     [''directory_format_template_'' \<mapsto> JStr ''%(root)s/%(rcm_model)s/%(version)s'',
      ''rcm_name'' \<mapsto> JStr ''RCA4'']"

text \<open>
  A cache of one entry, a federation that does not answer, and one whose index node
  fails after the nodes were found.
\<close>

definition sample_params :: "Param list" where
  "sample_params = [\<lparr>param_name = ''project'', param_value = ''CMIP6''\<rparr>]"

definition remote_down :: Remote where
  "remote_down =
     \<lparr>distrib_facet_counts = Inl (RemoteError ''timeout''),
      node_facet_counts = (\<lambda>nodes. Inl (RemoteError ''timeout''))\<rparr>"

definition remote_node_down :: Remote where
  "remote_node_down =
     \<lparr>distrib_facet_counts = Inr [[(''index_node'', [(''esgf.org'', 12)])]],
      node_facet_counts = (\<lambda>nodes. Inl (RemoteError ''esgf.org''))\<rparr>"

text \<open>A file in state \<open>error\<close>, a database that holds it, and one that holds a finished file.\<close>

definition sample_file :: File where
  "sample_file =
     \<lparr>file_id = ''a.b.v1.f.nc'', dataset_id = ''a.b.v1'', master_id = ''a.b.f.nc'',
      url = ''http://node/f.nc'', version = ''v1'', filename = ''f.nc'',
      local_path = ''a/b/v1'', data_node = ''node'', checksum = ''00'',
      checksum_type = ''SHA256'', size = 1, status = FS_error, raw = Map.empty\<rparr>"

definition sample_db :: Database where
  "sample_db = \<lparr>table_file = [sample_file, sample_file\<lparr>status := FS_done\<rparr>], oplog = []\<rparr>"

section \<open>Properties of \<open>retry\<close>\<close>

lemma getattr_members:
  "FileStatus_getattr ''Done'' = Inr FS_done"
  "FileStatus_getattr ''Queued'' = Inr FS_queued"
  "FileStatus_getattr ''Error'' = Inr FS_error"
  "FileStatus_getattr ''Cancelled'' = Inr FS_cancelled"
  by (simp_all add: FileStatus_getattr_def FileStatus_members_def)

lemma retryable_set:
  "set retryable = {FS_new, FS_starting, FS_started, FS_pausing, FS_paused, FS_error, FS_cancelled}"
  by (auto simp: retryable_def)

lemma retryable_complement: "set retryable = UNIV - {FS_done, FS_queued}"
proof -
  have "UNIV = {FS_new, FS_queued, FS_starting, FS_started, FS_pausing, FS_paused,
                FS_error, FS_cancelled, FS_done}"
    using FileStatus.exhaust by blast
  then show ?thesis by (auto simp: retryable_def)
qed

lemma set_status_length: "length (set_status s js fs) = length fs"
  by (induction js arbitrary: fs) simp_all

lemma set_status_nth:
  "i < length fs \<Longrightarrow>
   set_status s js fs ! i = (if i \<in> set js then (fs ! i)\<lparr>status := s\<rparr> else fs ! i)"
proof (induction js arbitrary: fs)
  case Nil
  then show ?case by simp
next
  case (Cons j js)
  let ?fs = "fs[j := (fs ! j)\<lparr>status := s\<rparr>]"
  have len: "i < length ?fs" using Cons.prems by simp
  show ?case
  proof (cases "i = j")
    case True
    then have "?fs ! i = (fs ! i)\<lparr>status := s\<rparr>" using Cons.prems by simp
    then show ?thesis using Cons.IH[OF len] True by simp
  next
    case False
    then have "?fs ! i = fs ! i" by simp
    then show ?thesis using Cons.IH[OF len] False by simp
  qed
qed

lemma with_status_fst:
  "set (fst (with_status sts db))
     = {i. i < length (table_file db) \<and> status (table_file db ! i) \<in> set sts}"
  by (auto simp: with_status_def)

lemma retry_chosen: "retry sts all db = logging (retry_body (chosen sts all) db)"
  by (simp add: retry_def chosen_def getattr_members Let_def retryable_def)

lemma retry_body_rejects:
  "FS_done \<in> set sts \<or> FS_queued \<in> set sts \<Longrightarrow> retry_body sts db = (Inl AssertionError, db)"
  by (auto simp: retry_body_def getattr_members)

lemma retry_body_accepts:
  assumes "FS_done \<notin> set sts" and "FS_queued \<notin> set sts"
  shows "retry_body sts db =
           (if fst (with_status sts db) = []
            then (Inl (Exit 0), db\<lparr>oplog := oplog db @ [Select sts]\<rparr>)
            else (Inr (),
                  \<lparr>table_file = set_status FS_queued (fst (with_status sts db)) (table_file db),
                   oplog = oplog db @ [Select sts, Add (fst (with_status sts db))]\<rparr>))"
  using assms
  by (simp add: retry_body_def getattr_members case_prod_beta db_add_def) (simp add: with_status_def)

lemma retry_keeps_unselected:
  assumes i: "i < length (table_file db)"
    and n: "status (table_file db ! i) \<notin> set (chosen sts all)"
  shows "table_file (snd (retry sts all db)) ! i = table_file db ! i"
proof (cases "FS_done \<in> set (chosen sts all) \<or> FS_queued \<in> set (chosen sts all)")
  case True
  then show ?thesis by (simp add: retry_chosen retry_body_rejects logging_def)
next
  case False
  have "i \<notin> set (fst (with_status (chosen sts all) db))"
    using n by (simp add: with_status_fst)
  then show ?thesis
    using False i by (simp add: retry_chosen retry_body_accepts logging_def set_status_nth)
qed

lemma retry_queues_selected:
  assumes i: "i < length (table_file db)"
    and c: "status (table_file db ! i) \<in> set (chosen sts all)"
    and d: "FS_done \<notin> set (chosen sts all)" and q: "FS_queued \<notin> set (chosen sts all)"
  shows "retry sts all db =
           (Inr (),
            \<lparr>table_file = set_status FS_queued (fst (with_status (chosen sts all) db)) (table_file db),
             oplog = oplog db @ [Select (chosen sts all), Add (fst (with_status (chosen sts all) db))]\<rparr>)"
    and "status (set_status FS_queued (fst (with_status (chosen sts all) db)) (table_file db) ! i)
           = FS_queued"
proof -
  have m: "i \<in> set (fst (with_status (chosen sts all) db))"
    using i c by (simp add: with_status_fst)
  then have ne: "fst (with_status (chosen sts all) db) \<noteq> []" by auto
  show "retry sts all db =
           (Inr (),
            \<lparr>table_file = set_status FS_queued (fst (with_status (chosen sts all) db)) (table_file db),
             oplog = oplog db @ [Select (chosen sts all), Add (fst (with_status (chosen sts all) db))]\<rparr>)"
    using ne by (simp add: retry_chosen retry_body_accepts[OF d q] logging_def)
  show "status (set_status FS_queued (fst (with_status (chosen sts all) db)) (table_file db) ! i)
           = FS_queued"
    using m i by (simp add: set_status_nth)
qed

lemma chosen_all: "chosen sts True = retryable"
  by (simp add: chosen_def)

lemma chosen_one: "chosen [s] False = [s]"
  by (simp add: chosen_def)

lemma chosen_default: "chosen [] False = [FS_error, FS_cancelled]"
  by (simp add: chosen_def)

text \<open>
  C2: a call of \<open>retry\<close> whose selection names the state of a file that is \<open>done\<close> or
  \<open>queued\<close> is rejected and changes nothing, and no call changes such a file; a file in
  one of the seven states \<open>new\<close>, \<open>starting\<close>, \<open>started\<close>, \<open>pausing\<close>, \<open>paused\<close>,
  \<open>error\<close>, \<open>cancelled\<close> that is retried by its state, or with the flag \<open>all\<close>, is set to
  \<open>queued\<close> and the call succeeds; and \<open>retryable\<close> is exactly these seven states.
\<close>

theorem retry_lifecycle:
  assumes "i < length (table_file db)"
  shows "(status (table_file db ! i) \<in> {FS_done, FS_queued} \<longrightarrow>
            table_file (snd (retry sts all db)) ! i = table_file db ! i
            \<and> (\<not> all \<and> status (table_file db ! i) \<in> set sts \<longrightarrow>
                 retry sts all db = (Inl (Abort AssertionError), db)))
       \<and> (status (table_file db ! i) \<in> set retryable \<longrightarrow>
            (\<exists>db'. retry [status (table_file db ! i)] False db = (Inr (), db')
                   \<and> status (table_file db' ! i) = FS_queued)
            \<and> (\<exists>db'. retry sts True db = (Inr (), db')
                   \<and> status (table_file db' ! i) = FS_queued))
       \<and> set retryable
            = {FS_new, FS_starting, FS_started, FS_pausing, FS_paused, FS_error, FS_cancelled}"
proof (intro conjI impI)
  assume dq: "status (table_file db ! i) \<in> {FS_done, FS_queued}"
  show "table_file (snd (retry sts all db)) ! i = table_file db ! i"
  proof (cases "status (table_file db ! i) \<in> set (chosen sts all)")
    case True
    with dq have "FS_done \<in> set (chosen sts all) \<or> FS_queued \<in> set (chosen sts all)" by auto
    then show ?thesis by (simp add: retry_chosen retry_body_rejects logging_def)
  next
    case False
    then show ?thesis by (rule retry_keeps_unselected[OF assms])
  qed
next
  assume dq: "status (table_file db ! i) \<in> {FS_done, FS_queued}"
    and sel: "\<not> all \<and> status (table_file db ! i) \<in> set sts"
  from sel have "chosen sts all = sts" by (auto simp: chosen_def)
  moreover from dq sel have "FS_done \<in> set sts \<or> FS_queued \<in> set sts" by auto
  ultimately show "retry sts all db = (Inl (Abort AssertionError), db)"
    by (simp add: retry_chosen retry_body_rejects logging_def)
next
  assume r: "status (table_file db ! i) \<in> set retryable"
  let ?s = "status (table_file db ! i)"
  have nd: "?s \<noteq> FS_done" "?s \<noteq> FS_queued" using r by (auto simp: retryable_def)
  show "\<exists>db'. retry [?s] False db = (Inr (), db') \<and> status (table_file db' ! i) = FS_queued"
    using retry_queues_selected[of i db "[?s]" False] assms nd
    by (simp add: chosen_one)
next
  assume r: "status (table_file db ! i) \<in> set retryable"
  show "\<exists>db'. retry sts True db = (Inr (), db') \<and> status (table_file db' ! i) = FS_queued"
    using retry_queues_selected[of i db sts True] assms r
    by (simp add: chosen_all) (simp add: retryable_def)
next
  show "set retryable
          = {FS_new, FS_starting, FS_started, FS_pausing, FS_paused, FS_error, FS_cancelled}"
    by (rule retryable_set)
qed

lemma sample_db_rows:
  "length (table_file sample_db) = 2"
  "status (table_file sample_db ! 0) = FS_error"
  "status (table_file sample_db ! 1) = FS_done"
  "status (table_file sample_db ! Suc 0) = FS_done"
  by (simp_all add: sample_db_def sample_file_def)

theorem retry_lifecycle_witness:
  "(0::nat) < length (table_file sample_db)
   \<and> status (table_file sample_db ! 0) = FS_error
   \<and> (\<exists>db'. retry [FS_error] False sample_db = (Inr (), db')
            \<and> status (table_file db' ! 0) = FS_queued)
   \<and> status (table_file sample_db ! 1) = FS_done
   \<and> retry [FS_done] False sample_db = (Inl (Abort AssertionError), sample_db)"
proof -
  have l0: "(0::nat) < length (table_file sample_db)" and l1: "(1::nat) < length (table_file sample_db)"
    by (simp_all add: sample_db_rows)
  have e: "status (table_file sample_db ! 0) \<in> set retryable"
    by (simp add: sample_db_rows retryable_def)
  have "\<exists>db'. retry [status (table_file sample_db ! 0)] False sample_db = (Inr (), db')
            \<and> status (table_file db' ! 0) = FS_queued"
    using retry_lifecycle[OF l0, of "[]" False] e by blast
  then have a: "\<exists>db'. retry [FS_error] False sample_db = (Inr (), db')
            \<and> status (table_file db' ! 0) = FS_queued"
    by (simp add: sample_db_rows)
  have b: "retry [FS_done] False sample_db = (Inl (Abort AssertionError), sample_db)"
    using retry_lifecycle[OF l1, of "[FS_done]" False] by (simp add: sample_db_rows)
  show ?thesis using l0 a b by (simp add: sample_db_rows)
qed

text \<open>
  C9, as stated, fails: with an empty status selection and the flag \<open>all\<close> unset, \<open>retry\<close>
  on the sample database raises nothing; it selects by status and sets the file in
  state \<open>error\<close> to \<open>queued\<close>.
\<close>

theorem retry_default_counterexample:
  "retry [] False sample_db =
     (Inr (),
      \<lparr>table_file = [sample_file\<lparr>status := FS_queued\<rparr>, sample_file\<lparr>status := FS_done\<rparr>],
       oplog = [Select [FS_error, FS_cancelled], Add [0]]\<rparr>)"
proof -
  have w: "fst (with_status [FS_error, FS_cancelled] sample_db) = [0]"
    by (simp add: with_status_def sample_db_def sample_file_def upt_rec)
  show ?thesis
    by (simp add: retry_chosen chosen_default retry_body_accepts w logging_def)
       (simp add: sample_db_def)
qed

text \<open>
  C9, amended: with an empty status selection and the flag \<open>all\<close> unset, \<open>retry\<close> works
  on the states \<open>error\<close> and \<open>cancelled\<close>, which are members of the enumeration: the
  call does what the call with this selection does, it sets every file in one of the
  two states to \<open>queued\<close> and succeeds, it leaves every other file as it was, and when no
  file is in one of the two states it exits with code 0 after the select, the rows
  unchanged.
\<close>

theorem retry_default_requeues:
  "retry [] False db = retry [FS_error, FS_cancelled] False db
   \<and> (\<forall>i < length (table_file db).
        (status (table_file db ! i) \<in> {FS_error, FS_cancelled} \<longrightarrow>
           (\<exists>db'. retry [] False db = (Inr (), db') \<and> status (table_file db' ! i) = FS_queued))
        \<and> (status (table_file db ! i) \<notin> {FS_error, FS_cancelled} \<longrightarrow>
             table_file (snd (retry [] False db)) ! i = table_file db ! i))
   \<and> ((\<forall>i < length (table_file db). status (table_file db ! i) \<notin> {FS_error, FS_cancelled}) \<longrightarrow>
        retry [] False db
          = (Inl (Exit 0), db\<lparr>oplog := oplog db @ [Select [FS_error, FS_cancelled]]\<rparr>))"
proof (intro conjI allI impI)
  show "retry [] False db = retry [FS_error, FS_cancelled] False db"
    by (simp add: retry_chosen chosen_def)
next
  fix i assume i: "i < length (table_file db)"
    and s: "status (table_file db ! i) \<in> {FS_error, FS_cancelled}"
  show "\<exists>db'. retry [] False db = (Inr (), db') \<and> status (table_file db' ! i) = FS_queued"
    using retry_queues_selected[of i db "[]" False] i s
    by (simp add: chosen_default)
next
  fix i assume i: "i < length (table_file db)"
    and s: "status (table_file db ! i) \<notin> {FS_error, FS_cancelled}"
  show "table_file (snd (retry [] False db)) ! i = table_file db ! i"
    using retry_keeps_unselected[OF i, of "[]" False] s by (simp add: chosen_default)
next
  assume "\<forall>i < length (table_file db). status (table_file db ! i) \<notin> {FS_error, FS_cancelled}"
  then have "fst (with_status [FS_error, FS_cancelled] db) = []"
    by (auto simp: with_status_def filter_empty_conv)
  then show "retry [] False db
          = (Inl (Exit 0), db\<lparr>oplog := oplog db @ [Select [FS_error, FS_cancelled]]\<rparr>)"
    by (simp add: retry_chosen chosen_default retry_body_accepts logging_def)
qed

theorem retry_default_requeues_witness:
  "status (table_file sample_db ! 0) = FS_error
   \<and> (\<exists>db'. retry [] False sample_db = (Inr (), db') \<and> status (table_file db' ! 0) = FS_queued)
   \<and> table_file (snd (retry [] False sample_db)) ! 1 = table_file sample_db ! 1"
proof -
  have l0: "(0::nat) < length (table_file sample_db)" and l1: "(1::nat) < length (table_file sample_db)"
    by (simp_all add: sample_db_rows)
  note rows = retry_default_requeues[of sample_db, THEN conjunct2, THEN conjunct1, rule_format]
  have a: "\<exists>db'. retry [] False sample_db = (Inr (), db') \<and> status (table_file db' ! 0) = FS_queued"
    using rows[OF l0, THEN conjunct1] by (simp add: sample_db_rows)
  have b: "table_file (snd (retry [] False sample_db)) ! 1 = table_file sample_db ! 1"
    using rows[OF l1, THEN conjunct2] by (simp add: sample_db_rows)
  show ?thesis using a b by (simp add: sample_db_rows)
qed

section \<open>Properties of the query model\<close>

subsection \<open>What each step leaves alone\<close>

lemma fold_keeps: "(\<And>x h. g (f x h) = g h) \<Longrightarrow> g (fold f xs h) = g h"
  by (induction xs arbitrary: h) simp_all

lemma fold_invariant: "P h \<Longrightarrow> (\<And>x h. P h \<Longrightarrow> P (f x h)) \<Longrightarrow> P (fold f xs h)"
  by (induction xs arbitrary: h) simp_all

lemma new_Tags_frame:
  "query_objs (snd (new_Tags ns h)) = query_objs h"
  "options_objs (snd (new_Tags ns h)) = options_objs h"
  "selection_objs (snd (new_Tags ns h)) = selection_objs h"
  "next_ref (snd (new_Tags ns h)) = next_ref h + length ns"
  by (induction ns arbitrary: h; simp add: new_Tag_def case_prod_beta)+

lemma length_names_of: "length (names_of h q) = length (tags (query_at h q))"
  by (cases "tags (query_at h q)") (auto simp: names_of_def asdict_def Let_def)

lemma clone_fst:
  "fst (clone E False q h) = next_ref h + length (tags (query_at h q)) + 2"
  using length_names_of[of h q]
  by (simp add: clone_def Query_init_def case_prod_beta new_Options_def new_Selection_def
      new_Tags_frame names_of_def)

lemma clone_query:
  "query_objs (snd (clone E False q h)) =
     (query_objs h)(fst (clone E False q h) \<mapsto>
        \<lparr>tags = fst (new_Tags (names_of h q) h),
         transient = transient (query_at h q),
         require = require (query_at h q),
         options = next_ref h + length (tags (query_at h q)),
         selection = next_ref h + length (tags (query_at h q)) + 1,
         sha = None\<rparr>)"
  using length_names_of[of h q]
  by (simp add: clone_def Query_init_def case_prod_beta new_Options_def new_Selection_def
      new_Tags_frame names_of_def)
    (auto simp: asdict_def Let_def split: option.splits)

lemma clone_options:
  "options_objs (snd (clone E False q h)) =
     (options_objs h)(next_ref h + length (tags (query_at h q)) \<mapsto>
        \<lparr>flags = flags (options_at h (options (query_at h q))), options_sha = None\<rparr>)"
  using length_names_of[of h q]
  by (simp add: clone_def Query_init_def case_prod_beta new_Options_def new_Selection_def
      new_Tags_frame names_of_def)
    (auto simp: asdict_def Let_def split: option.splits)

lemma query_frame_refl: "query_frame r h h"
  by (simp add: query_frame_def)

lemma query_frame_trans: "query_frame r h h1 \<Longrightarrow> query_frame r h1 h2 \<Longrightarrow> query_frame r h h2"
  by (simp add: query_frame_def)

lemma query_frame_same: "query_objs h' = query_objs h \<Longrightarrow> query_frame r h h'"
  by (simp add: query_frame_def query_at_def)

lemma tags_append_frame:
  "options_objs (tags_append r t h) = options_objs h"
  "query_frame r h (tags_append r t h)"
  by (simp_all add: tags_append_def query_frame_def query_at_def)

lemma tags_loop_options:
  "options_objs (fold (\<lambda>t hh. if \<not> Tag_in E hh t (tags (query_at hh self))
                                then tags_append r t hh else hh) ts h) = options_objs h"
  by (rule fold_keeps) (simp add: tags_append_frame)

lemma tags_loop_frame:
  "query_frame r h (fold (\<lambda>t hh. if \<not> Tag_in E hh t (tags (query_at hh self))
                                then tags_append r t hh else hh) ts h)"
proof (rule fold_invariant[where P = "query_frame r h"])
  show "query_frame r h h" by (rule query_frame_refl)
next
  fix t hh assume "query_frame r h hh"
  then show "query_frame r h (if \<not> Tag_in E hh t (tags (query_at hh self))
                                then tags_append r t hh else hh)"
    using query_frame_trans[OF _ tags_append_frame(2)] by simp
qed

lemma Options_setattr_frame:
  "query_objs (Options_setattr ob n v h) = query_objs h"
  "x \<noteq> ob \<Longrightarrow> options_objs (Options_setattr ob n v h) x = options_objs h x"
  "flags (options_at (Options_setattr ob n v h) ob) = AList.update n v (flags (options_at h ob))"
  by (simp_all add: Options_setattr_def options_at_def)

lemma options_loop_query:
  "query_objs (fold (\<lambda>(n, v) hh. Options_setattr (options (query_at hh self)) n v hh) fl h)
     = query_objs h"
  by (rule fold_keeps) (simp add: case_prod_beta Options_setattr_frame)

lemma options_loop_other:
  "x \<noteq> options (query_at h self) \<Longrightarrow>
   options_objs (fold (\<lambda>(n, v) hh. Options_setattr (options (query_at hh self)) n v hh) fl h) x
     = options_objs h x"
proof (induction fl arbitrary: h)
  case Nil
  then show ?case by simp
next
  case (Cons a fl)
  obtain n v where a: "a = (n, v)" by (cases a)
  let ?h = "Options_setattr (options (query_at h self)) n v h"
  have q: "query_at ?h self = query_at h self"
    by (simp add: query_at_def Options_setattr_frame)
  show ?case
    using Cons.IH[of ?h] Cons.prems by (simp add: a q Options_setattr_frame)
qed

lemma options_loop_self:
  "flags (options_at
       (fold (\<lambda>(n, v) hh. Options_setattr (options (query_at hh self)) n v hh) fl h)
       (options (query_at h self)))
     = fold (\<lambda>(n, v). AList.update n v) fl (flags (options_at h (options (query_at h self))))"
proof (induction fl arbitrary: h)
  case Nil
  then show ?case by simp
next
  case (Cons a fl)
  obtain n v where a: "a = (n, v)" by (cases a)
  let ?h = "Options_setattr (options (query_at h self)) n v h"
  have q: "query_at ?h self = query_at h self"
    by (simp add: query_at_def Options_setattr_frame)
  show ?case
    using Cons.IH[of ?h] by (simp add: a q Options_setattr_frame)
qed

lemma Selection_setitem_frame:
  "query_objs (Selection_setitem sl n vs h) = query_objs h"
  "options_objs (Selection_setitem sl n vs h) = options_objs h"
  by (simp_all add: Selection_setitem_def)

lemma selection_loop_frame:
  "query_objs (fold (\<lambda>(n, vs) hh. Selection_setitem (selection (query_at hh r)) n vs hh) fa h)
     = query_objs h"
  "options_objs (fold (\<lambda>(n, vs) hh. Selection_setitem (selection (query_at hh r)) n vs hh) fa h)
     = options_objs h"
  by (rule fold_keeps, simp add: case_prod_beta Selection_setitem_frame)+

lemma set_transient_frame:
  "options_objs (set_transient r b h) = options_objs h"
  "query_frame r h (set_transient r b h)"
  by (simp_all add: set_transient_def query_frame_def query_at_def)

lemma Tag_compute_sha_frame:
  "query_objs (fold (Tag_compute_sha E) ts h) = query_objs h"
  "options_objs (fold (Tag_compute_sha E) ts h) = options_objs h"
  "selection_objs (fold (Tag_compute_sha E) ts h) = selection_objs h"
  by (rule fold_keeps, simp add: Tag_compute_sha_def)+

lemma compute_sha_flags:
  "flags (options_at (compute_sha E q h) x) = flags (options_at h x)"
  by (simp add: compute_sha_def Let_def Selection_compute_sha_def Options_compute_sha_def
      options_at_def Tag_compute_sha_frame)

lemma compute_sha_frame: "query_frame q h (compute_sha E q h)"
  by (simp add: compute_sha_def Let_def Selection_compute_sha_def Options_compute_sha_def
      query_at_def query_frame_def Tag_compute_sha_frame)

lemma compute_sha_value:
  "sha (query_at (compute_sha E q h) q) =
     Some (digest E (encode (str_tuple3
        (repr_opt (require (query_at h q)))
        (repr_opt (Some (digest E (Options_as_bytes E (flags (options_at h (options (query_at h q))))))))
        (repr_opt (Some (digest E (Selection_as_bytes E (facets (selection_at h (selection (query_at h q)))))))))))"
  by (simp add: compute_sha_def Let_def Selection_compute_sha_def Options_compute_sha_def
      query_at_def options_at_def selection_at_def Query_as_bytes_def Tag_compute_sha_frame)


lemma lshift_stages:
  obtains r h1 h2 h3 h4 h5 where
    "lshift E self other h = (r, compute_sha E r h5)"
    "r = fst (clone E False self h)"
    "h1 = snd (clone E False self h)"
    "h2 = fold (\<lambda>t hh. if \<not> Tag_in E hh t (tags (query_at hh self))
                          then tags_append r t hh else hh) (tags (query_at h1 other)) h1"
    "h3 = fold (\<lambda>(n, v) hh. Options_setattr (options (query_at hh self)) n v hh)
               (flags (options_at h2 (options (query_at h2 other)))) h2"
    "h4 = fold (\<lambda>(n, vs) hh. Selection_setitem (selection (query_at hh r)) n vs hh)
               (facets (selection_at h3 (selection (query_at h3 other)))) h3"
    "h5 = set_transient r (transient (query_at h4 other)) h4"
  by (simp add: lshift_def case_prod_beta Let_def)

lemma lshift_frame:
  assumes "lshift E self other h = (r, h')"
  shows "query_frame r (snd (clone E False self h)) h'"
    and "r = fst (clone E False self h)"
proof -
  obtain r0 h1 h2 h3 h4 h5 where st:
    "lshift E self other h = (r0, compute_sha E r0 h5)"
    "r0 = fst (clone E False self h)"
    "h1 = snd (clone E False self h)"
    "h2 = fold (\<lambda>t hh. if \<not> Tag_in E hh t (tags (query_at hh self))
                          then tags_append r0 t hh else hh) (tags (query_at h1 other)) h1"
    "h3 = fold (\<lambda>(n, v) hh. Options_setattr (options (query_at hh self)) n v hh)
               (flags (options_at h2 (options (query_at h2 other)))) h2"
    "h4 = fold (\<lambda>(n, vs) hh. Selection_setitem (selection (query_at hh r0)) n vs hh)
               (facets (selection_at h3 (selection (query_at h3 other)))) h3"
    "h5 = set_transient r0 (transient (query_at h4 other)) h4"
    by (rule lshift_stages)
  from st(1) assms have r: "r0 = r" and h': "h' = compute_sha E r h5" by simp_all
  have f2: "query_frame r h1 h2" unfolding st(4) r by (rule tags_loop_frame)
  have f3: "query_frame r h2 h3" unfolding st(5) by (rule query_frame_same) (rule options_loop_query)
  have f4: "query_frame r h3 h4" unfolding st(6) by (rule query_frame_same) (rule selection_loop_frame)
  have f5: "query_frame r h4 h5" unfolding st(7) r by (rule set_transient_frame)
  have f6: "query_frame r h5 h'" unfolding h' by (rule compute_sha_frame)
  from f2 f3 f4 f5 f6 have "query_frame r h1 h'"
    by (blast intro: query_frame_trans)
  then show "query_frame r (snd (clone E False self h)) h'" by (simp add: st(3))
  show "r = fst (clone E False self h)" using st(2) r by simp
qed

lemma lshift_keeps_require:
  assumes "lshift E self other h = (r, h')"
  shows "require (query_at h' r) = require (query_at h self)"
proof -
  have "require (query_at h' r) = require (query_at (snd (clone E False self h)) r)"
    using lshift_frame(1)[OF assms] by (simp add: query_frame_def)
  also have "\<dots> = require (query_at h self)"
    unfolding lshift_frame(2)[OF assms] by (simp add: query_at_def clone_query)
  finally show ?thesis .
qed


lemma wf_query_below:
  assumes "wf_query h q"
  shows "q < next_ref h" and "options (query_at h q) < next_ref h"
  using assms by (auto simp: wf_query_def query_at_def split: option.splits)

lemma clone_fresh:
  assumes "wf_query h q"
  shows "q \<noteq> fst (clone E False self h)"
    and "options (query_at h q) \<noteq> next_ref h + length (tags (query_at h self))"
  using wf_query_below[OF assms] by (simp_all add: clone_fst)

lemma lshift_options:
  assumes l: "lshift E self other h = (r, h')"
    and s: "self \<noteq> r" and o: "other \<noteq> r"
  shows "flags (options_at h' x) =
          (if x = options (query_at h self)
           then fold (\<lambda>(n, v). AList.update n v)
                  (flags (options_at (snd (clone E False self h)) (options (query_at h other))))
                  (flags (options_at (snd (clone E False self h)) x))
           else flags (options_at (snd (clone E False self h)) x))"
proof -
  obtain r0 h1 h2 h3 h4 h5 where st:
    "lshift E self other h = (r0, compute_sha E r0 h5)"
    "r0 = fst (clone E False self h)"
    "h1 = snd (clone E False self h)"
    "h2 = fold (\<lambda>t hh. if \<not> Tag_in E hh t (tags (query_at hh self))
                          then tags_append r0 t hh else hh) (tags (query_at h1 other)) h1"
    "h3 = fold (\<lambda>(n, v) hh. Options_setattr (options (query_at hh self)) n v hh)
               (flags (options_at h2 (options (query_at h2 other)))) h2"
    "h4 = fold (\<lambda>(n, vs) hh. Selection_setitem (selection (query_at hh r0)) n vs hh)
               (facets (selection_at h3 (selection (query_at h3 other)))) h3"
    "h5 = set_transient r0 (transient (query_at h4 other)) h4"
    by (rule lshift_stages)
  from st(1) l have r: "r0 = r" and h': "h' = compute_sha E r h5" by simp_all
  have q1: "query_at h1 y = query_at h y" if "y \<noteq> r" for y
    using that unfolding st(3) by (simp add: query_at_def clone_query st(2)[symmetric] r)
  have f2: "query_frame r h1 h2" unfolding st(4) r by (rule tags_loop_frame)
  have q2: "query_at h2 y = query_at h y" if "y \<noteq> r" for y
    using that f2 q1[OF that] by (simp add: query_frame_def query_at_def)
  have o2: "options_objs h2 = options_objs h1" unfolding st(4) by (rule tags_loop_options)
  have a2: "options_at h2 = options_at h1" using o2 by (simp add: options_at_def fun_eq_iff)
  have fl: "flags (options_at h3 x) =
          (if x = options (query_at h self)
           then fold (\<lambda>(n, v). AList.update n v)
                  (flags (options_at h1 (options (query_at h other)))) (flags (options_at h1 x))
           else flags (options_at h1 x))"
  proof (cases "x = options (query_at h self)")
    case True
    then show ?thesis
      unfolding st(5) using options_loop_self[of self _ h2]
      by (simp add: q2[OF s] q2[OF o] a2)
  next
    case False
    then have "options_objs h3 x = options_objs h2 x"
      unfolding st(5) using options_loop_other[of x h2 self] by (simp add: q2[OF s])
    then show ?thesis using False by (simp add: options_at_def o2)
  qed
  have o4: "options_objs h4 = options_objs h3" unfolding st(6) by (rule selection_loop_frame)
  have o5: "options_objs h5 = options_objs h4" unfolding st(7) by (rule set_transient_frame)
  have "flags (options_at h' x) = flags (options_at h5 x)"
    unfolding h' by (rule compute_sha_flags)
  then have "flags (options_at h' x) = flags (options_at h3 x)"
    by (simp add: options_at_def o5 o4)
  then show ?thesis using fl by (simp add: st(3))
qed

lemma lshift_result_flags:
  assumes l: "lshift E self other h = (r, h')"
    and ws: "wf_query h self" and wo: "wf_query h other"
  shows "flags (options_at h' (options (query_at h' r))) = flags (options_at h (options (query_at h self)))"
proof -
  have rr: "r = fst (clone E False self h)" by (rule lshift_frame(2)[OF l])
  have s: "self \<noteq> r" and o: "other \<noteq> r"
    unfolding rr by (rule clone_fresh(1)[OF ws], rule clone_fresh(1)[OF wo])
  have "options (query_at h' r) = options (query_at (snd (clone E False self h)) r)"
    using lshift_frame(1)[OF l] by (simp add: query_frame_def)
  also have "\<dots> = next_ref h + length (tags (query_at h self))"
    unfolding rr by (simp add: query_at_def clone_query)
  finally have ob: "options (query_at h' r) = next_ref h + length (tags (query_at h self))" .
  show ?thesis
    unfolding ob lshift_options[OF l s o]
    using clone_fresh(2)[OF ws, of self] by (simp add: options_at_def clone_options)
qed

lemma lshift_base_flags:
  assumes l: "lshift E self other h = (r, h')"
    and ws: "wf_query h self" and wo: "wf_query h other"
  shows "flags (options_at h' (options (query_at h self))) =
           fold (\<lambda>(n, v). AList.update n v)
             (flags (options_at h (options (query_at h other))))
             (flags (options_at h (options (query_at h self))))"
proof -
  have rr: "r = fst (clone E False self h)" by (rule lshift_frame(2)[OF l])
  have s: "self \<noteq> r" and o: "other \<noteq> r"
    unfolding rr by (rule clone_fresh(1)[OF ws], rule clone_fresh(1)[OF wo])
  show ?thesis
    unfolding lshift_options[OF l s o]
    using clone_fresh(2)[OF ws, of self] clone_fresh(2)[OF wo, of self]
    by (simp add: options_at_def clone_options)
qed

lemma lshift_operand_query:
  assumes l: "lshift E self other h = (r, h')" and w: "wf_query h q"
  shows "query_at h' q = query_at h q"
proof -
  have rr: "r = fst (clone E False self h)" by (rule lshift_frame(2)[OF l])
  have s: "q \<noteq> r" unfolding rr by (rule clone_fresh(1)[OF w])
  have "query_objs h' q = query_objs (snd (clone E False self h)) q"
    using lshift_frame(1)[OF l] s by (simp add: query_frame_def)
  then show ?thesis using s unfolding rr by (simp add: query_at_def clone_query)
qed

lemma wf_sample: "wf_query sample_heap 4" "wf_query sample_heap 5"
  by (simp_all add: wf_query_def sample_heap_def)

subsection \<open>The operator \<open><<\<close> on the sample queries\<close>

text \<open>
  C1: on the sample queries, where the base sets \<open>distrib\<close> to \<open>False\<close> and the override
  sets it to \<open>True\<close>, the query returned by \<open>base << override\<close> has \<open>distrib\<close> set to
  \<open>False\<close>: the flag of the override is not in its options.
\<close>

theorem lshift_result_misses_override:
  "flags (options_at sample_heap (options (query_at sample_heap 5))) = [(''distrib'', Some True)] \<and>
   flags (options_at (snd (lshift sample_env 4 5 sample_heap))
            (options (query_at (snd (lshift sample_env 4 5 sample_heap))
                               (fst (lshift sample_env 4 5 sample_heap)))))
     = [(''distrib'', Some False)]"
  using lshift_result_flags[OF prod.collapse[symmetric] wf_sample, of sample_env]
  by (simp add: sample_heap_def query_at_def options_at_def)

text \<open>
  C4: on the same queries, \<open>base << override\<close> changes the options of the base: its flag
  \<open>distrib\<close> is \<open>False\<close> before the call and \<open>True\<close> after it.
\<close>

theorem lshift_changes_base_options:
  "flags (options_at sample_heap (options (query_at sample_heap 4))) = [(''distrib'', Some False)] \<and>
   flags (options_at (snd (lshift sample_env 4 5 sample_heap))
            (options (query_at (snd (lshift sample_env 4 5 sample_heap)) 4)))
     = [(''distrib'', Some True)]"
  using lshift_base_flags[OF prod.collapse[symmetric] wf_sample, of sample_env]
    lshift_operand_query[OF prod.collapse[symmetric] wf_sample(1), of sample_env 4 5]
  by (simp add: sample_heap_def query_at_def options_at_def)

subsection \<open>What the merged query requires\<close>

text \<open>
  C5, as stated, fails: the base of the sample queries extends \<open>abc\<close>, and the query
  returned by \<open>base << override\<close> carries a reference of what it requires.
\<close>

theorem lshift_requires_counterexample:
  "require (query_at (snd (lshift sample_env 4 5 sample_heap))
                     (fst (lshift sample_env 4 5 sample_heap))) \<noteq> None"
  using lshift_keeps_require[OF prod.collapse[symmetric], of sample_env 4 5 sample_heap]
  by (simp add: sample_heap_def query_at_def)

text \<open>
  C5, amended: the query returned by \<open>base << override\<close> requires what the base
  requires, and nothing when the base requires nothing; what the override requires is
  never copied.
\<close>

theorem lshift_requires_of_base:
  assumes "wf_query h self" and "wf_query h other"
    and "lshift E self other h = (r, h')"
  shows "require (query_at h' r) = require (query_at h self)"
  using assms(3) by (rule lshift_keeps_require)

theorem lshift_requires_of_base_witness:
  "wf_query sample_heap 4 \<and> wf_query sample_heap 5 \<and>
   require (query_at (snd (lshift sample_env 4 5 sample_heap))
                     (fst (lshift sample_env 4 5 sample_heap))) = Some ''abc''"
  using lshift_requires_of_base[OF wf_sample prod.collapse[symmetric], of sample_env] wf_sample
  by (simp add: sample_heap_def query_at_def)

subsection \<open>The identity of a query\<close>

lemma compute_sha_options_sha:
  "options_sha (options_at (compute_sha E q h) (options (query_at h q)))
     = Some (digest E (Options_as_bytes E (flags (options_at h (options (query_at h q))))))"
  by (simp add: compute_sha_def Let_def Selection_compute_sha_def Options_compute_sha_def
      query_at_def options_at_def Tag_compute_sha_frame)

lemma compute_sha_selection_sha:
  "selection_sha (selection_at (compute_sha E q h) (selection (query_at h q)))
     = Some (digest E (Selection_as_bytes E (facets (selection_at h (selection (query_at h q))))))"
  by (simp add: compute_sha_def Let_def Selection_compute_sha_def Options_compute_sha_def
      query_at_def selection_at_def Tag_compute_sha_frame)

lemma wf_sample_tagged: "wf_query sample_tagged_heap 5" "wf_query sample_tagged_heap 6"
  by (simp_all add: wf_query_def sample_tagged_heap_def)

text \<open>
  C3: \<open>compute_sha\<close> sets the identity of a query to the digest of the triple of what it
  requires, the identity of its options and the identity of its selection; two queries
  that agree on what they require, on their flags and on their facets get the same
  identity, whatever their tags.
\<close>

theorem query_sha_from_triple:
  assumes "wf_query h q" and "wf_query h' q'"
    and "require (query_at h q) = require (query_at h' q')"
    and "flags (options_at h (options (query_at h q)))
           = flags (options_at h' (options (query_at h' q')))"
    and "facets (selection_at h (selection (query_at h q)))
           = facets (selection_at h' (selection (query_at h' q')))"
  shows "sha (query_at (compute_sha E q h) q)
           = Some (triple_hash E (require (query_at h q))
                     (options_sha (options_at (compute_sha E q h) (options (query_at h q))))
                     (selection_sha (selection_at (compute_sha E q h) (selection (query_at h q)))))
         \<and> sha (query_at (compute_sha E q h) q) = sha (query_at (compute_sha E q' h') q')"
  using assms(3-5)
  by (simp add: compute_sha_value compute_sha_options_sha compute_sha_selection_sha triple_hash_def)

theorem query_sha_from_triple_witness:
  "wf_query sample_tagged_heap 5 \<and> wf_query sample_tagged_heap 6 \<and>
   tags (query_at sample_tagged_heap 5) \<noteq> tags (query_at sample_tagged_heap 6) \<and>
   sha (query_at (compute_sha sample_env 5 sample_tagged_heap) 5)
     = sha (query_at (compute_sha sample_env 6 sample_tagged_heap) 6)"
proof -
  have a: "require (query_at sample_tagged_heap 5) = require (query_at sample_tagged_heap 6)"
    by (simp add: sample_tagged_heap_def query_at_def)
  have b: "flags (options_at sample_tagged_heap (options (query_at sample_tagged_heap 5)))
           = flags (options_at sample_tagged_heap (options (query_at sample_tagged_heap 6)))"
    by (simp add: sample_tagged_heap_def query_at_def options_at_def)
  have c: "facets (selection_at sample_tagged_heap (selection (query_at sample_tagged_heap 5)))
           = facets (selection_at sample_tagged_heap (selection (query_at sample_tagged_heap 6)))"
    by (simp add: sample_tagged_heap_def query_at_def selection_at_def)
  have d: "tags (query_at sample_tagged_heap 5) \<noteq> tags (query_at sample_tagged_heap 6)"
    by (simp add: sample_tagged_heap_def query_at_def)
  have "sha (query_at (compute_sha sample_env 5 sample_tagged_heap) 5)
          = sha (query_at (compute_sha sample_env 6 sample_tagged_heap) 6)"
    using query_sha_from_triple[OF wf_sample_tagged a b c, of sample_env] by (rule conjunct2)
  with wf_sample_tagged d show ?thesis
    by simp
qed

section \<open>Properties of the resolver\<close>

subsection \<open>Replacing and formatting a template of placeholders\<close>

lemma replace_match: "old \<noteq> [] \<Longrightarrow> replace old new (old @ s) = new @ replace old new s"
  by (subst replace.simps) simp

lemma replace_skip:
  "old \<noteq> [] \<Longrightarrow> hd old \<notin> set p \<Longrightarrow> replace old new (p @ s) = p @ replace old new s"
proof (induction p)
  case Nil
  then show ?case by simp
next
  case (Cons c p)
  then have "\<not> prefix old (c # p @ s)"
    by (cases old) auto
  with Cons show ?case
    by (subst replace.simps) simp
qed

lemma replace_Nil: "old \<noteq> [] \<Longrightarrow> replace old new [] = []"
  by (subst replace.simps) simp

lemma join_map_pieces:
  assumes piece: "\<And>n s. P n \<Longrightarrow> R (f n @ s) = g n @ R s"
    and sep: "\<And>s. R (sep @ s) = sep @ R s"
    and nil: "R [] = []"
    and ns: "list_all P ns"
  shows "R (join sep (map f ns)) = join sep (map g ns)"
  using ns
proof (induction ns rule: induct_list012)
  case 1
  then show ?case by (simp add: nil)
next
  case (2 n)
  then show ?case using piece[of n "[]"] by (simp add: nil)
next
  case (3 n m ns)
  then show ?case using piece[of n "sep @ join sep (map f (m # ns))"]
    by (simp add: sep)
qed

lemma join_map_emit:
  assumes piece: "\<And>n s. P n \<Longrightarrow> F (f n @ s) = emit (g n) (F s)"
    and sep: "\<And>s. F (sep @ s) = emit sep (F s)"
    and nil: "F [] = Inr []"
    and ns: "list_all P ns"
  shows "F (join sep (map f ns)) = Inr (join sep (map g ns))"
  using ns
proof (induction ns rule: induct_list012)
  case 1
  then show ?case by (simp add: nil)
next
  case (2 n)
  then show ?case using piece[of n "[]"] by (simp add: nil emit_def)
next
  case (3 n m ns)
  then show ?case using piece[of n "sep @ join sep (map f (m # ns))"]
    by (simp add: sep emit_def)
qed

lemma plain_name_chars:
  assumes "plain_name n"
  shows "CHR ''%'' \<notin> set n" "CHR '')'' \<notin> set n" "CHR ''{'' \<notin> set n" "CHR ''}'' \<notin> set n"
    "CHR ''.'' \<notin> set n" "\<forall>c\<in>set n. \<not> field_stop c" "n \<noteq> []"
    "\<not> list_all (\<lambda>c. c \<in> set ''0123456789'') n"
  using assms by (auto simp: plain_name_def list_all_iff field_stop_def)

lemma replace_open:
  assumes "list_all plain_name ns"
  shows "replace ''%('' ''{'' (join ''/'' (map placeholder ns))
           = join ''/'' (map (\<lambda>n. ''{'' @ n @ '')s'') ns)"
proof (rule join_map_pieces[where P = plain_name, OF _ _ _ assms])
  fix n s assume n: "plain_name n"
  have "replace ''%('' ''{'' (''%('' @ (n @ '')s'') @ s)
          = ''{'' @ replace ''%('' ''{'' ((n @ '')s'') @ s)"
    by (rule replace_match) simp
  also have "replace ''%('' ''{'' ((n @ '')s'') @ s) = (n @ '')s'') @ replace ''%('' ''{'' s"
    using plain_name_chars(1)[OF n] by (intro replace_skip) simp_all
  finally show "replace ''%('' ''{'' (placeholder n @ s)
                 = (''{'' @ n @ '')s'') @ replace ''%('' ''{'' s"
    by (simp add: placeholder_def)
next
  fix s
  show "replace ''%('' ''{'' (''/'' @ s) = ''/'' @ replace ''%('' ''{'' s"
    by (rule replace_skip) simp_all
next
  show "replace ''%('' ''{'' [] = []" by (simp add: replace_Nil)
qed

lemma replace_close:
  assumes "list_all plain_name ns"
  shows "replace '')s'' ''}'' (join ''/'' (map (\<lambda>n. ''{'' @ n @ '')s'') ns))
           = join ''/'' (map (\<lambda>n. ''{'' @ n @ ''}'') ns)"
proof (rule join_map_pieces[where P = plain_name, OF _ _ _ assms])
  fix n s assume n: "plain_name n"
  have "replace '')s'' ''}'' ((''{'' @ n) @ ('')s'' @ s))
          = (''{'' @ n) @ replace '')s'' ''}'' ('')s'' @ s)"
    using plain_name_chars(2)[OF n] by (intro replace_skip) simp_all
  also have "replace '')s'' ''}'' ('')s'' @ s) = ''}'' @ replace '')s'' ''}'' s"
    by (rule replace_match) simp
  finally show "replace '')s'' ''}'' ((''{'' @ n @ '')s'') @ s)
                 = (''{'' @ n @ ''}'') @ replace '')s'' ''}'' s"
    by simp
next
  fix s
  show "replace '')s'' ''}'' (''/'' @ s) = ''/'' @ replace '')s'' ''}'' s"
    by (rule replace_skip) simp_all
next
  show "replace '')s'' ''}'' [] = []" by (simp add: replace_Nil)
qed

lemma format_field:
  assumes n: "plain_name n" and v: "kwargs n = Some v"
  shows "format kwargs ((''{'' @ n @ ''}'') @ s) = emit (str_json v) (format kwargs s)"
proof -
  obtain c cs where ncs: "n = c # cs" using plain_name_chars(7)[OF n] by (cases n) auto
  have c: "c \<noteq> CHR ''{''" using plain_name_chars(3)[OF n] ncs by auto
  have tw: "takeWhile (\<lambda>x. \<not> field_stop x) (n @ CHR ''}'' # s) = n"
    using plain_name_chars(6)[OF n] by (simp add: takeWhile_append2 field_stop_def)
  have dw: "dropWhile (\<lambda>x. \<not> field_stop x) (n @ CHR ''}'' # s) = CHR ''}'' # s"
    using plain_name_chars(6)[OF n] by (simp add: dropWhile_append2 field_stop_def)
  have gf: "get_field kwargs n = Inr (str_json v)"
    using plain_name_chars(5,7,8)[OF n] v by (simp add: get_field_def)
  have "format kwargs (CHR ''{'' # (c # cs) @ CHR ''}'' # s) = emit (str_json v) (format kwargs s)"
    using c tw dw gf unfolding ncs by simp
  then show ?thesis by (simp add: ncs)
qed

lemma format_slash: "format kwargs (''/'' @ s) = emit ''/'' (format kwargs s)"
  by simp

lemma format_fields:
  assumes "list_all (\<lambda>n. plain_name n \<and> kwargs n \<noteq> None) ns"
  shows "format kwargs (join ''/'' (map (\<lambda>n. ''{'' @ n @ ''}'') ns))
           = Inr (join ''/'' (map (\<lambda>n. str_json (the (kwargs n))) ns))"
proof (rule join_map_emit[where P = "\<lambda>n. plain_name n \<and> kwargs n \<noteq> None", OF _ _ _ assms])
  fix n s assume "plain_name n \<and> kwargs n \<noteq> None"
  then show "format kwargs ((''{'' @ n @ ''}'') @ s) = emit (str_json (the (kwargs n))) (format kwargs s)"
    using format_field[of n kwargs "the (kwargs n)" s] by auto
next
  fix s show "format kwargs (''/'' @ s) = emit ''/'' (format kwargs s)" by (rule format_slash)
next
  show "format kwargs [] = Inr []" by simp
qed


lemma cordex_None: "flat ''rcm_name'' = None \<Longrightarrow> cordex flat = Inr flat"
  by (simp add: cordex_def)

text \<open>
  C7: for a directory template that is \<open>%(root)s/\<close> followed by placeholders
  \<open>%(name)s\<close> separated by \<open>/\<close>, \<open>get_local_path\<close> strips the root prefix, turns each
  placeholder into a field and returns the values of the names, in the order of the
  template and separated by \<open>/\<close>; the values are those of the metadata (flattened, and
  with the regional model of CORDEX), and the resolved version for \<open>version\<close>.
\<close>

theorem get_local_path_placeholders:
  assumes tmpl: "rawdict ''directory_format_template_'' = Some t"
    and fs: "find_str (flatten t) = Inr (''%(root)s/'' @ join ''/'' (map placeholder ns))"
    and cx: "cordex ((\<lambda>k. map_option flatten (rawdict k))(''version'' := None)) = Inr kw"
    and names: "list_all (\<lambda>n. plain_name n \<and> (kw(''version'' \<mapsto> JStr ver)) n \<noteq> None) ns"
  shows "get_local_path find_str rawdict ver
           = Inr (join ''/'' (map (\<lambda>n. str_json (the ((kw(''version'' \<mapsto> JStr ver)) n))) ns))"
proof -
  have pn: "list_all plain_name ns" using names by (simp add: list_all_iff)
  have rp: "removeprefix ''%(root)s/'' (''%(root)s/'' @ join ''/'' (map placeholder ns))
              = join ''/'' (map placeholder ns)"
    by (simp add: removeprefix_def)
  show ?thesis
    unfolding get_local_path_def Let_def
    by (simp only: getitem_def tmpl fs cx rp replace_open[OF pn] replace_close[OF pn]
        format_fields[OF names] option.simps sum.simps option.map)
qed

text \<open>
  The instance of the spec: the template \<open>%(root)s/%(a)s/%(b)s/%(version)s\<close>, the metadata
  \<open>a = x\<close>, \<open>b = y\<close> and the version \<open>v1\<close> give \<open>x/y/v1\<close>.
\<close>

theorem get_local_path_placeholders_witness:
  "sample_meta ''directory_format_template_'' = Some (JStr ''%(root)s/%(a)s/%(b)s/%(version)s'')
   \<and> sample_meta ''a'' = Some (JStr ''x'') \<and> sample_meta ''b'' = Some (JStr ''y'')
   \<and> get_local_path sample_find_str sample_meta ''v1'' = Inr ''x/y/v1''"
proof -
  let ?fields = "(\<lambda>k. map_option flatten (sample_meta k))(''version'' := None)"
  have t: "sample_meta ''directory_format_template_'' = Some (JStr ''%(root)s/%(a)s/%(b)s/%(version)s'')"
    by (simp add: sample_meta_def)
  have f: "sample_find_str (flatten (JStr ''%(root)s/%(a)s/%(b)s/%(version)s''))
             = Inr (''%(root)s/'' @ join ''/'' (map placeholder [''a'', ''b'', ''version'']))"
    by (simp add: flatten_def placeholder_def)
  have c: "cordex ?fields = Inr ?fields"
    by (rule cordex_None) (simp add: sample_meta_def)
  have n: "list_all (\<lambda>n. plain_name n \<and> (?fields(''version'' \<mapsto> JStr ''v1'')) n \<noteq> None)
             [''a'', ''b'', ''version'']"
    by (simp add: plain_name_def sample_meta_def)
  have "get_local_path sample_find_str sample_meta ''v1''
          = Inr (join ''/'' (map (\<lambda>n. str_json (the ((?fields(''version'' \<mapsto> JStr ''v1'')) n)))
                   [''a'', ''b'', ''version'']))"
    by (rule get_local_path_placeholders[where rawdict = sample_meta and find_str = sample_find_str
          and ns = "[''a'', ''b'', ''version'']" and kw = ?fields and ver = "''v1''", OF t f c n])
  then have "get_local_path sample_find_str sample_meta ''v1'' = Inr ''x/y/v1''"
    by (simp add: sample_meta_def flatten_def str_json_def)
  then show ?thesis by (simp add: sample_meta_def)
qed

subsection \<open>The CORDEX rule\<close>

text \<open>
  C10: when the metadata has the key \<open>rcm_name\<close> and no key \<open>institute\<close>,
  \<open>get_local_path\<close> raises \<open>KeyError\<close>: on \<open>institute\<close>, which the rule reads without
  a test, or before that on the template when the record has none. (\<open>find_str\<close> is
  taken not to raise on the template.)
\<close>

theorem cordex_without_institute:
  assumes rcm: "rawdict ''rcm_name'' = Some r"
    and inst: "rawdict ''institute'' = None"
    and fs: "rawdict ''directory_format_template_'' = None
             \<or> (\<exists>t T. rawdict ''directory_format_template_'' = Some t \<and> find_str (flatten t) = Inr T)"
  shows "get_local_path find_str rawdict ver
           = Inl (KeyError (if rawdict ''directory_format_template_'' = None
                            then ''directory_format_template_'' else ''institute''))"
proof (cases "rawdict ''directory_format_template_''")
  case None
  then show ?thesis by (simp add: get_local_path_def getitem_def)
next
  case (Some t)
  with fs obtain T where T: "find_str (flatten t) = Inr T" by auto
  have "cordex ((\<lambda>k. map_option flatten (rawdict k))(''version'' := None)) = Inl (KeyError ''institute'')"
    by (simp add: cordex_def getitem_def rcm inst)
  then show ?thesis
    by (simp add: get_local_path_def getitem_def Some T Let_def)
qed

theorem cordex_without_institute_witness:
  "sample_cordex ''rcm_name'' = Some (JStr ''RCA4'') \<and> sample_cordex ''institute'' = None
   \<and> get_local_path sample_find_str sample_cordex ''v1'' = Inl (KeyError ''institute'')"
proof -
  have r: "sample_cordex ''rcm_name'' = Some (JStr ''RCA4'')" by (simp add: sample_cordex_def)
  have i: "sample_cordex ''institute'' = None" by (simp add: sample_cordex_def)
  have t: "sample_cordex ''directory_format_template_'' = None
             \<or> (\<exists>t T. sample_cordex ''directory_format_template_'' = Some t
                        \<and> sample_find_str (flatten t) = Inr T)"
    by (simp add: sample_cordex_def flatten_def)
  have n: "sample_cordex ''directory_format_template_'' \<noteq> None"
    by (simp add: sample_cordex_def)
  show ?thesis
    using cordex_without_institute[OF r i t, of "''v1''"] r i n
    by simp
qed

subsection \<open>Identifiers of a file\<close>

lemma takeWhile_upto: "c \<notin> set x \<Longrightarrow> takeWhile (\<lambda>a. a \<noteq> c) (x @ c # ys) = x"
  by (induction x) auto

lemma dropWhile_upto: "c \<notin> set x \<Longrightarrow> dropWhile (\<lambda>a. a \<noteq> c) (x @ c # ys) = c # ys"
  by (induction x) auto

lemma takeWhile_absent: "c \<notin> set x \<Longrightarrow> takeWhile (\<lambda>a. a \<noteq> c) x = x"
  by (induction x) auto

lemma partition_head_qualifier:
  "CHR ''|'' \<notin> set x \<Longrightarrow> qualifier q \<Longrightarrow> partition_head CHR ''|'' (x @ q) = x"
  by (cases q) (simp_all add: partition_head_def qualifier_def takeWhile_upto takeWhile_absent)

lemma rsplit1_last:
  assumes "CHR ''.'' \<notin> set v"
  shows "rsplit1 CHR ''.'' (d @ ''.'' @ v) = [d, v]"
proof -
  have r: "rev (d @ ''.'' @ v) = rev v @ CHR ''.'' # rev d" by simp
  have "takeWhile (\<lambda>c. c \<noteq> CHR ''.'') (rev v @ CHR ''.'' # rev d) = rev v"
    using assms by (intro takeWhile_upto) simp
  moreover have "dropWhile (\<lambda>c. c \<noteq> CHR ''.'') (rev v @ CHR ''.'' # rev d) = CHR ''.'' # rev d"
    using assms by (intro dropWhile_upto) simp
  ultimately show ?thesis
    unfolding rsplit1_def r by simp
qed

lemma sample_hit_path: "get_local_path sample_find_str sample_hit ''v2020'' = Inr ''CMIP6/v2020''"
  by (simp add: get_local_path_def sample_hit_def getitem_def flatten_def removeprefix_def
      replace.simps cordex_def field_stop_def get_field_def emit_def str_json_def)

text \<open>
  C6: for a raw hit whose dataset identity is \<open>D.V\<close>, with no dot in the version \<open>V\<close>,
  followed or not by a replica qualifier, whose file name is \<open>F\<close> and whose other fields
  are found, \<open>from_dict\<close> returns the file with \<open>file_id = D.V.F\<close>, \<open>master_id = D.F\<close>,
  \<open>version = V\<close>, and with the qualifier stripped from the dataset identity and from the
  URL.
\<close>

theorem from_dict_identifiers:
  assumes ds: "find_in find_str rawdict ''dataset_id'' = Inr (D @ ''.'' @ V @ Q)"
    and D: "CHR ''|'' \<notin> set D" and V: "CHR ''|'' \<notin> set V" "CHR ''.'' \<notin> set V"
    and Q: "qualifier Q"
    and title: "find_in find_str rawdict ''title'' = Inr F"
    and u: "find_in find_str rawdict ''url'' = Inr (U @ Q')"
    and U: "CHR ''|'' \<notin> set U" and Q': "qualifier Q'"
    and dn: "find_in find_str rawdict ''data_node'' = Inr dn"
    and c: "find_in find_str rawdict ''checksum'' = Inr c"
    and ct: "find_in find_str rawdict ''checksum_type'' = Inr ct"
    and sz: "find_in find_int rawdict ''size'' = Inr sz"
    and lp: "get_local_path find_str rawdict V = Inr p"
  shows "from_dict find_str find_int rawdict =
           Inr \<lparr>file_id = D @ ''.'' @ V @ ''.'' @ F, dataset_id = D @ ''.'' @ V,
                master_id = D @ ''.'' @ F, url = U, version = V, filename = F,
                local_path = p, data_node = dn, checksum = c, checksum_type = ct,
                size = sz, status = FS_new, raw = rawdict\<rparr>"
proof -
  have p1: "partition_head CHR ''|'' (D @ ''.'' @ V @ Q) = D @ ''.'' @ V"
    using partition_head_qualifier[of "D @ ''.'' @ V" Q] D V Q by simp
  have p2: "partition_head CHR ''|'' (U @ Q') = U"
    using partition_head_qualifier[OF U Q'] .
  have rs: "rsplit1 CHR ''.'' (D @ ''.'' @ V) = [D, V]"
    by (rule rsplit1_last[OF V(2)])
  show ?thesis
    unfolding from_dict_def ds title u dn c ct sz sum.case Let_def p1 p2 rs
    by (simp add: index_def lp)
qed

theorem from_dict_identifiers_witness:
  "from_dict sample_find_str sample_find_int sample_hit =
     Inr \<lparr>file_id = ''CMIP6.tas.v2020.tas.nc'', dataset_id = ''CMIP6.tas.v2020'',
          master_id = ''CMIP6.tas.tas.nc'', url = ''http://esgf.org/tas.nc'',
          version = ''v2020'', filename = ''tas.nc'', local_path = ''CMIP6/v2020'',
          data_node = ''esgf.org'', checksum = ''c0ffee'', checksum_type = ''SHA256'',
          size = 1024, status = FS_new, raw = sample_hit\<rparr>"
proof -
  have ds: "find_in sample_find_str sample_hit ''dataset_id''
              = Inr (''CMIP6.tas'' @ ''.'' @ ''v2020'' @ ''|esgf.org'')"
    by (simp add: find_in_def getitem_def sample_hit_def)
  have title: "find_in sample_find_str sample_hit ''title'' = Inr ''tas.nc''"
    by (simp add: find_in_def getitem_def sample_hit_def)
  have u: "find_in sample_find_str sample_hit ''url''
             = Inr (''http://esgf.org/tas.nc'' @ ''|application/netcdf|HTTPServer'')"
    by (simp add: find_in_def getitem_def sample_hit_def)
  have dn: "find_in sample_find_str sample_hit ''data_node'' = Inr ''esgf.org''"
    by (simp add: find_in_def getitem_def sample_hit_def)
  have c: "find_in sample_find_str sample_hit ''checksum'' = Inr ''c0ffee''"
    by (simp add: find_in_def getitem_def sample_hit_def)
  have ct: "find_in sample_find_str sample_hit ''checksum_type'' = Inr ''SHA256''"
    by (simp add: find_in_def getitem_def sample_hit_def)
  have sz: "find_in sample_find_int sample_hit ''size'' = Inr 1024"
    by (simp add: find_in_def getitem_def sample_hit_def)
  have "from_dict sample_find_str sample_find_int sample_hit =
     Inr \<lparr>file_id = ''CMIP6.tas'' @ ''.'' @ ''v2020'' @ ''.'' @ ''tas.nc'',
          dataset_id = ''CMIP6.tas'' @ ''.'' @ ''v2020'',
          master_id = ''CMIP6.tas'' @ ''.'' @ ''tas.nc'', url = ''http://esgf.org/tas.nc'',
          version = ''v2020'', filename = ''tas.nc'', local_path = ''CMIP6/v2020'',
          data_node = ''esgf.org'', checksum = ''c0ffee'', checksum_type = ''SHA256'',
          size = 1024, status = FS_new, raw = sample_hit\<rparr>"
    by (rule from_dict_identifiers[OF ds _ _ _ _ title u _ _ dn c ct sz sample_hit_path])
       (simp_all add: qualifier_def)
  then show ?thesis by simp
qed

section \<open>Properties of the vocabulary refresh\<close>

lemma db_delete_all: "db_delete_params (db_select_params table) table = []"
  by (simp add: db_delete_params_def db_select_params_def)

lemma fetch_params_early: "table \<noteq> [] \<Longrightarrow> fetch_params R False table = (Inr False, table)"
  by (simp add: fetch_params_def db_select_params_def)

lemma fetch_params_past:
  assumes "table = [] \<or> update"
  shows "fetch_params R update table =
           (case distrib_facet_counts R of
              Inl e \<Rightarrow> (Inl e, [])
            | Inr fcs \<Rightarrow>
                (case index_nodes_of fcs of
                   Inl e \<Rightarrow> (Inl e, [])
                 | Inr index_nodes \<Rightarrow>
                     (case node_facet_counts R index_nodes of
                        Inl e \<Rightarrow> (Inl e, [])
                      | Inr index_facets \<Rightarrow>
                          (Inr True, make_params (collect_all index_facets)))))"
proof -
  have "\<not> (db_select_params table \<noteq> [] \<and> \<not> update)"
    using assms by (auto simp: db_select_params_def)
  then show ?thesis
    unfolding fetch_params_def Let_def db_delete_all
    by (simp add: db_add_params_def split: sum.splits)
qed

lemma fetch_params_success:
  assumes "table = [] \<or> update"
    and "distrib_facet_counts R = Inr fcs" and "index_nodes_of fcs = Inr nodes"
    and "node_facet_counts R nodes = Inr index_facets"
  shows "fetch_params R update table = (Inr True, make_params (collect_all index_facets))"
  using assms(2-) by (simp add: fetch_params_past[OF assms(1)])

text \<open>
  C8, as stated, fails: with a cache of one entry, \<open>update\<close> set and a federation that
  does not answer, the call raises and the cache is empty afterwards.
\<close>

theorem fetch_params_counterexample:
  "fetch_params remote_down True sample_params = (Inl (RemoteError ''timeout''), [])
   \<and> sample_params \<noteq> []"
  by (simp add: fetch_params_past remote_down_def sample_params_def)

text \<open>
  C8, amended: when \<open>fetch_params\<close> goes past its early return and a request to the
  federation fails, the call raises that failure and leaves the cache empty: the old
  entries were deleted before the first request, and none is inserted.
\<close>

theorem fetch_params_failure_empties:
  assumes "table = [] \<or> update"
    and "distrib_facet_counts R = Inl e
         \<or> (\<exists>fcs nodes. distrib_facet_counts R = Inr fcs \<and> index_nodes_of fcs = Inr nodes
                          \<and> node_facet_counts R nodes = Inl e)"
  shows "fetch_params R update table = (Inl e, [])"
  using assms(2) by (auto simp: fetch_params_past[OF assms(1)])

theorem fetch_params_failure_empties_witness:
  "fetch_params remote_node_down True sample_params = (Inl (RemoteError ''esgf.org''), [])"
proof -
  have "distrib_facet_counts remote_node_down = Inl (RemoteError ''esgf.org'')
         \<or> (\<exists>fcs nodes. distrib_facet_counts remote_node_down = Inr fcs
                \<and> index_nodes_of fcs = Inr nodes
                \<and> node_facet_counts remote_node_down nodes = Inl (RemoteError ''esgf.org''))"
    by (simp add: remote_node_down_def index_nodes_of_def index_def getitem_def)
  then show ?thesis
    by (rule fetch_params_failure_empties[of sample_params True, OF disjI2[OF TrueI]])
qed

end
